theory Spec2Isabelle
  imports Main "HOL-Library.Sublist"
begin

section \<open>Go library functions used by the package\<close>

text \<open>
  Go strings and byte slices are byte sequences: \<open>string\<close> (a \<open>char list\<close>).
  Go's \<open>int\<close> is taken as the 64-bit integer of the amd64 target the package configures
  (\<open>lxc.arch = amd64\<close>); values are held as \<open>int\<close> and the range is written out where
  a conversion can leave it.
\<close>

definition newline :: string where
  "newline = [CHR 0x0A]"

text \<open>\<open>fmt.Sprintf("%d", n)\<close>: the decimal rendering of an integer.\<close>

definition digit_char :: "nat \<Rightarrow> char" where
  "digit_char d = char_of (48 + d)"

fun dec_nat :: "nat \<Rightarrow> string" where
  "dec_nat n = (if n < 10 then [digit_char n] else dec_nat (n div 10) @ [digit_char (n mod 10)])"

declare dec_nat.simps [simp del]

definition dec_int :: "int \<Rightarrow> string" where
  "dec_int i = (if i < 0 then CHR ''-'' # dec_nat (nat (- i)) else dec_nat (nat i))"

text \<open>\<open>strings.HasPrefix(s, prefix)\<close>.\<close>

definition HasPrefix :: "string \<Rightarrow> string \<Rightarrow> bool" where
  "HasPrefix s pre \<longleftrightarrow> length pre \<le> length s \<and> take (length pre) s = pre"

text \<open>
  \<open>strings.Split(s, sep)\<close> for a separator of one byte: the pieces between the separators,
  at least one piece (the whole of \<open>s\<close> when it holds no separator).
\<close>

fun Split :: "string \<Rightarrow> char \<Rightarrow> string list" where
  "Split [] sep = [[]]"
| "Split (c # cs) sep =
     (if c = sep then [] # Split cs sep
      else (case Split cs sep of [] \<Rightarrow> [[c]] | w # ws \<Rightarrow> (c # w) # ws))"

text \<open>
  \<open>strconv.ParseUint(s, 10, 64)\<close> reads the digits from the left and stops at the first
  failure: a byte that is no decimal digit is a syntax error, a value that leaves 64 bits is
  a range error.
\<close>

datatype num_result = Value nat | ErrSyntax | ErrRange

definition is_digit :: "char \<Rightarrow> bool" where
  "is_digit c \<longleftrightarrow> 48 \<le> (of_char c :: nat) \<and> (of_char c :: nat) \<le> 57"

definition digit_val :: "char \<Rightarrow> nat" where
  "digit_val c = of_char c - 48"

definition maxUint64 :: nat where
  "maxUint64 = 2 ^ 64 - 1"

fun ParseUint_from :: "nat \<Rightarrow> string \<Rightarrow> num_result" where
  "ParseUint_from n [] = Value n"
| "ParseUint_from n (c # cs) =
     (if \<not> is_digit c then ErrSyntax
      else if n \<ge> maxUint64 div 10 + 1 then ErrRange
      else if n * 10 + digit_val c > maxUint64 then ErrRange
      else ParseUint_from (n * 10 + digit_val c) cs)"

definition ParseUint :: "string \<Rightarrow> num_result" where
  "ParseUint s = (if s = [] then ErrSyntax else ParseUint_from 0 s)"

text \<open>
  The value of \<open>strconv.ParseInt(s, 10, 64)\<close>. Every call in the package drops the error
  (\<open>code, _ := strconv.ParseInt(...)\<close>), so only the value is modelled: 0 on a syntax
  error, the nearest 64-bit bound on a range error.
\<close>

definition ParseInt :: "string \<Rightarrow> int" where
  "ParseInt s =
     (case s of
        [] \<Rightarrow> 0
      | c # cs \<Rightarrow>
          (let neg = (c = CHR ''-'');
               s' = (if c = CHR ''+'' \<or> c = CHR ''-'' then cs else s)
           in case ParseUint s' of
                ErrSyntax \<Rightarrow> 0
              | r \<Rightarrow>
                  (let un = (case r of Value n \<Rightarrow> n | _ \<Rightarrow> maxUint64)
                   in if \<not> neg \<and> un \<ge> 2 ^ 63 then 2 ^ 63 - 1
                      else if neg \<and> un > 2 ^ 63 then - (2 ^ 63)
                      else if neg then - int un else int un)))"

subsection \<open>Package path\<close>

text \<open>
  \<open>path.Clean\<close> on the elements of a path: empty elements and \<open>.\<close> are dropped, \<open>..\<close>
  removes the element before it, is dropped at the root and is kept at the start of a path
  that is not rooted. \<open>clean_elems\<close> holds the elements kept so far, last one first.
\<close>

fun clean_elems :: "bool \<Rightarrow> string list \<Rightarrow> string list \<Rightarrow> string list" where
  "clean_elems rooted out [] = rev out"
| "clean_elems rooted out (e # es) =
     (if e = [] \<or> e = ''.'' then clean_elems rooted out es
      else if e = ''..'' then
        (case out of
           [] \<Rightarrow> if rooted then clean_elems rooted out es else clean_elems rooted [e] es
         | e1 # below \<Rightarrow>
             if e1 = ''..'' then clean_elems rooted (e # out) es
             else clean_elems rooted below es)
      else clean_elems rooted (e # out) es)"

fun join_with_slash :: "string list \<Rightarrow> string" where
  "join_with_slash [] = []"
| "join_with_slash [e] = e"
| "join_with_slash (e # es) = e @ ''/'' @ join_with_slash es"

definition Clean :: "string \<Rightarrow> string" where
  "Clean p =
     (if p = [] then ''.''
      else (let rooted = (hd p = CHR ''/'');
                out = join_with_slash (clean_elems rooted [] (Split p (CHR ''/'')))
            in if rooted then CHR ''/'' # out
               else if out = [] then ''.'' else out))"

text \<open>\<open>path.Join\<close>: leading empty elements are skipped, the rest joined and cleaned.\<close>

definition Join :: "string list \<Rightarrow> string" where
  "Join elem =
     (case dropWhile (\<lambda>e. e = []) elem of
        [] \<Rightarrow> []
      | es \<Rightarrow> Clean (join_with_slash es))"

text \<open>\<open>path.Base\<close>: the last element, after trailing slashes are removed.\<close>

definition Base :: "string \<Rightarrow> string" where
  "Base p =
     (if p = [] then ''.''
      else (let q = rev (dropWhile (\<lambda>c. c = CHR ''/'') (rev p));
                b = rev (takeWhile (\<lambda>c. c \<noteq> CHR ''/'') (rev q))
            in if b = [] then ''/'' else b))"

text \<open>\<open>path.Dir\<close>: the path up to its last slash, cleaned.\<close>

definition Dir :: "string \<Rightarrow> string" where
  "Dir p = Clean (rev (dropWhile (\<lambda>c. c \<noteq> CHR ''/'') (rev p)))"

section \<open>util.go\<close>

text \<open>
  The file probes call \<open>os.Stat\<close>. A filesystem state is what \<open>os.Stat\<close> answers for each
  path: \<open>None\<close> when it returns an error, otherwise the kind of the file found.
\<close>

datatype file_kind = Regular | Directory | NamedPipe | Device

type_synonym filesystem = "string \<Rightarrow> file_kind option"

definition DirExists :: "filesystem \<Rightarrow> string \<Rightarrow> bool" where
  "DirExists fs dir = (case fs dir of None \<Rightarrow> False | Some k \<Rightarrow> k = Directory)"

definition FileExists :: "filesystem \<Rightarrow> string \<Rightarrow> bool" where
  "FileExists fs pathname = (case fs pathname of None \<Rightarrow> False | Some k \<Rightarrow> True)"

definition IsFIFO :: "filesystem \<Rightarrow> string \<Rightarrow> bool" where
  "IsFIFO fs filename = (case fs filename of None \<Rightarrow> False | Some k \<Rightarrow> k = NamedPipe)"

section \<open>limits.go\<close>

definition RLIMIT_UNCHANGED :: int where
  "RLIMIT_UNCHANGED = - 2"

record ResourceLimits =
  cpu :: int
  fsize :: int
  data :: int
  stack :: int
  core :: int
  rss :: int
  nofile :: int
  as :: int
  nproc :: int
  memproc :: int
  locks :: int
  sigpending :: int
  msgqueue :: int
  nice :: int
  rtprio :: int

text \<open>
  One block of \<open>ResourceLimitsToIexecArgString\<close>:
  \<^verbatim>\<open>if (soft.cpu != RLIMIT_UNCHANGED) {
       var x = []byte(fmt.Sprintf(" --rlimit-cpu-soft %d", soft.cpu))
       buffer = append(buffer, x...) }\<close>
  with the flag text up to the \<open>%d\<close> as \<open>flag\<close>.
\<close>

definition append_limit :: "string \<Rightarrow> int \<Rightarrow> string \<Rightarrow> string" where
  "append_limit flag v buffer =
     (if v \<noteq> RLIMIT_UNCHANGED then buffer @ (flag @ dec_int v) else buffer)"

text \<open>The fifteen blocks for the soft record, in the order of the source.\<close>

definition soft_args :: "ResourceLimits \<Rightarrow> string \<Rightarrow> string" where
  "soft_args soft buffer =
     foldl (\<lambda>buffer (flag, v). append_limit flag v buffer) buffer
       [('' --rlimit-cpu-soft '', cpu soft),
        ('' --rlimit-fsize-soft '', fsize soft),
        ('' --rlimit-data-soft '', data soft),
        ('' --rlimit-stack-soft '', stack soft),
        ('' --rlimit-core-soft '', core soft),
        ('' --rlimit-rss-soft '', rss soft),
        ('' --rlimit-nofile-soft '', nofile soft),
        ('' --rlimit-as-soft '', as soft),
        ('' --rlimit-nproc-soft '', nproc soft),
        ('' --rlimit-memproc-soft '', memproc soft),
        ('' --rlimit-locks-soft '', locks soft),
        ('' --rlimit-sigpending-soft '', sigpending soft),
        ('' --rlimit-msgqueue-soft '', msgqueue soft),
        ('' --rlimit-nice-soft '', nice soft),
        ('' --rlimit-rtprio-soft '', rtprio soft)]"

text \<open>The fifteen blocks for the hard record.\<close>

definition hard_args :: "ResourceLimits \<Rightarrow> string \<Rightarrow> string" where
  "hard_args hard buffer =
     foldl (\<lambda>buffer (flag, v). append_limit flag v buffer) buffer
       [('' --rlimit-cpu-hard '', cpu hard),
        ('' --rlimit-fsize-hard '', fsize hard),
        ('' --rlimit-data-hard '', data hard),
        ('' --rlimit-stack-hard '', stack hard),
        ('' --rlimit-core-hard '', core hard),
        ('' --rlimit-rss-hard '', rss hard),
        ('' --rlimit-nofile-hard '', nofile hard),
        ('' --rlimit-as-hard '', as hard),
        ('' --rlimit-nproc-hard '', nproc hard),
        ('' --rlimit-memproc-hard '', memproc hard),
        ('' --rlimit-locks-hard '', locks hard),
        ('' --rlimit-sigpending-hard '', sigpending hard),
        ('' --rlimit-msgqueue-hard '', msgqueue hard),
        ('' --rlimit-nice-hard '', nice hard),
        ('' --rlimit-rtprio-hard '', rtprio hard)]"

text \<open>
  \<open>buffer := make([]byte, 1024)\<close> is a slice of 1024 zero bytes; a nil record pointer is
  \<open>None\<close>.
\<close>

definition ResourceLimitsToIexecArgString ::
    "ResourceLimits option \<Rightarrow> ResourceLimits option \<Rightarrow> string" where
  "ResourceLimitsToIexecArgString soft hard =
     (let buffer = replicate 1024 (CHR 0x00);
          buffer = (case soft of None \<Rightarrow> buffer | Some s \<Rightarrow> soft_args s buffer);
          buffer = (case hard of None \<Rightarrow> buffer | Some h \<Rightarrow> hard_args h buffer)
      in buffer)"

definition NewResourceLimits :: ResourceLimits where
  "NewResourceLimits =
     \<lparr>cpu = RLIMIT_UNCHANGED, fsize = RLIMIT_UNCHANGED, data = RLIMIT_UNCHANGED,
      stack = RLIMIT_UNCHANGED, core = RLIMIT_UNCHANGED, rss = RLIMIT_UNCHANGED,
      nofile = RLIMIT_UNCHANGED, as = RLIMIT_UNCHANGED, nproc = RLIMIT_UNCHANGED,
      memproc = RLIMIT_UNCHANGED, locks = RLIMIT_UNCHANGED, sigpending = RLIMIT_UNCHANGED,
      msgqueue = RLIMIT_UNCHANGED, nice = RLIMIT_UNCHANGED, rtprio = RLIMIT_UNCHANGED\<rparr>"

text \<open>Whether every field of a record holds the \<open>RLIMIT_UNCHANGED\<close> sentinel.\<close>

definition all_unchanged :: "ResourceLimits \<Rightarrow> bool" where
  "all_unchanged r \<longleftrightarrow>
     cpu r = RLIMIT_UNCHANGED \<and> fsize r = RLIMIT_UNCHANGED \<and> data r = RLIMIT_UNCHANGED \<and>
     stack r = RLIMIT_UNCHANGED \<and> core r = RLIMIT_UNCHANGED \<and> rss r = RLIMIT_UNCHANGED \<and>
     nofile r = RLIMIT_UNCHANGED \<and> as r = RLIMIT_UNCHANGED \<and> nproc r = RLIMIT_UNCHANGED \<and>
     memproc r = RLIMIT_UNCHANGED \<and> locks r = RLIMIT_UNCHANGED \<and>
     sigpending r = RLIMIT_UNCHANGED \<and> msgqueue r = RLIMIT_UNCHANGED \<and>
     nice r = RLIMIT_UNCHANGED \<and> rtprio r = RLIMIT_UNCHANGED"

text \<open>A record pointer that is nil, or whose fields all hold the sentinel.\<close>

definition limits_unset :: "ResourceLimits option \<Rightarrow> bool" where
  "limits_unset r = (case r of None \<Rightarrow> True | Some l \<Rightarrow> all_unchanged l)"

section \<open>Errors\<close>

text \<open>
  The package reports errors as \<open>errors.New\<close> strings or passes on the error of a system
  call. Each distinct message is a constructor; \<open>OsError\<close> carries the number of an error
  that comes from the operating system or the Go library.
\<close>

datatype error =
    InvalidConfigKey string
  | CommandNotAFifo string
  | CommandMissing string
  | StatusNotAFifo string
  | StatusMissing string
  | LockContended
  | StrangeEBADF
  | Interrupted
  | OutOfKernelMemory
  | StatusError string
  | HomeMissing string string
  | OsError nat

section \<open>cgroups.go\<close>

text \<open>
  \<open>CgroupInfo\<close> is a Go map from keys to lists of values. Go visits the entries of a
  map in an unspecified order, and the renderer returns at the first key it rejects, so the
  model takes the entries as the list in which \<open>range\<close> visits them; \<open>info[key]\<close> is
  \<open>map_of info key\<close>.
\<close>

type_synonym CgroupInfo = "(string \<times> string list) list"

definition GetCGroupKeys :: "string list" where
  "GetCGroupKeys =
     [''lxc.utsname'',
      ''lxc.tty'',
      ''lxc.pts'',
      ''lxc.devttydir'',
      ''lxc.rootfs'',
      ''lxc.rootfs.mount'',
      ''lxc.mount'',
      ''lxc.arch'',
      ''lxc.cap.drop'',
      ''lxc.pivotdir'',
      ''lxc.network.type'',
      ''lxc.network.flags'',
      ''lxc.network.name'',
      ''lxc.network.link'',
      ''lxc.network.macvlan.mode'',
      ''lxc.network.hwaddr'',
      ''lxc.network.ipv4'',
      ''lxc.network.ipv4.gateway'',
      ''lxc.network.ipv6'',
      ''lxc.network.ipv6.gateway'',
      ''lxc.network.vlan.id'',
      ''lxc.network.mtu'',
      ''lxc.network.script.up'',
      ''lxc.network.veth.pair'',
      ''lxc.cgroup.devices.deny'',
      ''lxc.cgroup.devices.allow'',
      ''lxc.cgroup.cpu.shares'',
      ''lxc.cgroup.memory.force_empty'',
      ''lxc.cgroup.memory.limit_in_bytes'',
      ''lxc.cgroup.memory.memsw.limit_in_bytes'',
      ''lxc.cgroup.memory.move_charge_at_immigrate'',
      ''lxc.cgroup.memory.oom_control'',
      ''lxc.cgroup.memory.soft_limit_in_bytes'',
      ''lxc.cgroup.memory.swappiness'',
      ''lxc.cgroup.memory.usage_in_bytes'',
      ''lxc.cgroup.memory.use_hierarchy'',
      ''lxc.cgroup.cpuset.cpu_exclusive'',
      ''lxc.cgroup.cpuset.cpus'',
      ''lxc.cgroup.cpuset.mem_exclusive'',
      ''lxc.cgroup.cpuset.mem_hardwall'',
      ''lxc.cgroup.cpuset.memory_migrate'',
      ''lxc.cgroup.cpuset.memory_spread_page'',
      ''lxc.cgroup.cpuset.memory_spread_slab'',
      ''lxc.cgroup.cpuset.mems'',
      ''lxc.cgroup.cpuset.sched_load_balance'',
      ''lxc.cgroup.cpuset.sched_relax_domain_level'',
      ''lxc.cgroup.blkio.reset_stats'',
      ''lxc.cgroup.blkio.sectors'',
      ''lxc.cgroup.blkio.throttle.read_bps_device'',
      ''lxc.cgroup.blkio.throttle.read_iops_device'',
      ''lxc.cgroup.blkio.throttle.write_bps_device'',
      ''lxc.cgroup.blkio.throttle.write_iops_device'',
      ''lxc.cgroup.blkio.weight'',
      ''lxc.cgroup.blkio.weight_device'']"

text \<open>
  The key set is a Go \<open>map[string]bool\<close>; reading a key it does not hold gives
  \<open>false\<close>, so it is a function to \<open>bool\<close>.
\<close>

definition GetCGroupKeyArrayAndSet :: "string list \<times> (string \<Rightarrow> bool)" where
  "GetCGroupKeyArrayAndSet =
     (let keys = GetCGroupKeys;
          keyset = foldl (\<lambda>keyset key. keyset(key := True)) (\<lambda>_. False) keys
      in (keys, keyset))"

text \<open>The first loop of \<open>GetCgroupInfoBytes\<close>: return at the first key not in the set.\<close>

fun check_keys :: "(string \<Rightarrow> bool) \<Rightarrow> CgroupInfo \<Rightarrow> error option" where
  "check_keys keyset [] = None"
| "check_keys keyset ((key, value_list) # rest) =
     (if \<not> keyset key then Some (InvalidConfigKey key) else check_keys keyset rest)"

text \<open>
  The body of the second loop for one key of the allow-list: a key the map does not hold (or
  holds with a nil list) adds nothing, otherwise one line per value.
\<close>

definition render_key :: "CgroupInfo \<Rightarrow> string \<Rightarrow> string \<Rightarrow> string" where
  "render_key info buffer key =
     (case map_of info key of
        None \<Rightarrow> buffer
      | Some value_list \<Rightarrow>
          foldl (\<lambda>buffer value. buffer @ (key @ '' = '' @ value @ newline)) buffer value_list)"

definition GetCgroupInfoBytes :: "CgroupInfo \<Rightarrow> error + string" where
  "GetCgroupInfoBytes info =
     (let (keys, keyset) = GetCGroupKeyArrayAndSet
      in case check_keys keyset info of
           Some err \<Rightarrow> Inl err
         | None \<Rightarrow> Inr (foldl (render_key info) [] keys))"

text \<open>The byte slice of the returned pair: nil (\<open>None\<close>) beside an error.\<close>

definition returned_bytes :: "error + string \<Rightarrow> string option" where
  "returned_bytes r = (case r of Inl err \<Rightarrow> None | Inr buffer \<Rightarrow> Some buffer)"

text \<open>
  The rendering as the specification words it: in the order of the allow-list, one line
  \<open>key = value\<close> for each value of each key the mapping holds, and nothing else.
\<close>

definition allow_list_lines :: "CgroupInfo \<Rightarrow> string" where
  "allow_list_lines info =
     concat (map (\<lambda>key. concat (map (\<lambda>value. key @ '' = '' @ value @ newline)
                                   (case map_of info key of None \<Rightarrow> [] | Some vs \<Rightarrow> vs)))
                 GetCGroupKeys)"

section \<open>commands.go: the status reader\<close>

record FIFOCommandResult =
  Out :: string
  Err :: string
  SignalCodes :: "int list"
  ExitCode :: int
  Pid :: int

text \<open>
  What the outside world answers to the client. \<open>fs\<close> is the state \<open>os.Stat\<close> sees,
  \<open>TempDir\<close> and \<open>Mknod\<close> are the results of \<open>ioutil.TempDir\<close> and
  \<open>syscall.Mknod\<close>, \<open>lock_attempts\<close> the results of the successive attempts to open
  and lock the command pipe, \<open>write_errors\<close> the errors of the successive writes to it
  (no error once the list is used up), \<open>status_opens\<close> what each successive open of the
  status pipe delivers, \<open>ReadFile\<close> and \<open>Remove\<close> the results of
  \<open>ioutil.ReadFile\<close> and \<open>os.Remove\<close>. Errors of the system are numbers.
\<close>

datatype flock_result = Locked | EWOULDBLOCK | EBADF | EINTR | ENOLCK | Errno nat

datatype lock_attempt = OpenFailed nat | Flock flock_result

text \<open>
  One result of \<open>bufio.Reader.ReadLine\<close> before \<open>io.EOF\<close>: a line with its
  \<open>isPrefix\<close> flag (set when the line did not fit the buffer and continues in the next
  result), or an error.
\<close>

datatype read_event = Line string bool | ReadFails nat

datatype status_open = OpenFails nat | Opened "read_event list"

record world =
  fs :: filesystem
  TempDir :: "string \<Rightarrow> string \<Rightarrow> nat + string"
  Mknod :: "string \<Rightarrow> nat option"
  lock_attempts :: "lock_attempt list"
  write_errors :: "nat option list"
  status_opens :: "status_open list"
  ReadFile :: "string \<Rightarrow> string option"
  Remove :: "string \<Rightarrow> nat option"

text \<open>The local variables of \<open>WaitUntilDone\<close> that the read loop updates.\<close>

record reader_state =
  terminated :: bool
  signal_codes :: "int list"
  exit_code :: int
  pid :: int
  err_occurred :: bool

definition initial_reader_state :: reader_state where
  "initial_reader_state =
     \<lparr>terminated = False, signal_codes = [], exit_code = - 1, pid = 0, err_occurred = False\<rparr>"

text \<open>
  \<^verbatim>\<open>vals := strings.Split(sline, " ")
  if len(vals) > 1 { code, _ := strconv.ParseInt(vals[1], 10, 64) ... int(code) ... }\<close>
  gives the code when there is a second field.
\<close>

definition parse_code :: "string \<Rightarrow> int option" where
  "parse_code sline =
     (let vals = Split sline (CHR '' '')
      in if length vals > 1 then Some (ParseInt (vals ! 1)) else None)"

text \<open>The body of the inner loop for a line that was read whole (\<open>!prefix\<close>).\<close>

definition process_line :: "reader_state \<Rightarrow> string \<Rightarrow> reader_state" where
  "process_line st sline =
     (if HasPrefix sline ''kill '' then
        (let st = st\<lparr>terminated := True\<rparr>
         in case parse_code sline of
              Some code \<Rightarrow> st\<lparr>signal_codes := signal_codes st @ [code]\<rparr>
            | None \<Rightarrow> st)
      else if HasPrefix sline ''exit '' then
        (let st = st\<lparr>terminated := True\<rparr>
         in case parse_code sline of
              Some code \<Rightarrow> st\<lparr>exit_code := code\<rparr>
            | None \<Rightarrow> st)
      else if HasPrefix sline ''pid '' then
        (let st = st\<lparr>terminated := True\<rparr>
         in case parse_code sline of
              Some code \<Rightarrow> st\<lparr>pid := code\<rparr>
            | None \<Rightarrow> st)
      else if HasPrefix sline ''stop '' \<or> HasPrefix sline ''cont '' then
        (case parse_code sline of
           Some code \<Rightarrow> st\<lparr>signal_codes := signal_codes st @ [code]\<rparr>
         | None \<Rightarrow> st)
      else if HasPrefix sline ''err'' then
        st\<lparr>err_occurred := True, terminated := True\<rparr>
      else st)"

text \<open>
  The inner loop: every \<open>ReadLine\<close> result up to \<open>io.EOF\<close>. A read error returns at
  once; the loop does not leave early when \<open>terminated\<close> is set.
\<close>

fun read_lines :: "reader_state \<Rightarrow> read_event list \<Rightarrow> error + reader_state" where
  "read_lines st [] = Inr st"
| "read_lines st (ReadFails e # rest) = Inl (OsError e)"
| "read_lines st (Line sline isPrefix # rest) =
     read_lines (if \<not> isPrefix then process_line st sline else st) rest"

text \<open>
  The outer loop \<open>for ; !terminated; { ... }\<close>: each round opens the status pipe again.
  When the opens are used up and no terminal line was read, the reader waits in
  \<open>os.OpenFile\<close> for a writer that never comes: \<open>None\<close>.
\<close>

fun read_status :: "reader_state \<Rightarrow> status_open list \<Rightarrow> (error + reader_state) option" where
  "read_status st [] = (if terminated st then Some (Inr st) else None)"
| "read_status st (opn # rest) =
     (if terminated st then Some (Inr st)
      else case opn of
             OpenFails e \<Rightarrow> Some (Inl (OsError e))
           | Opened events \<Rightarrow>
               (case read_lines st events of
                  Inl err \<Rightarrow> Some (Inl err)
                | Inr st' \<Rightarrow> read_status st' rest))"

text \<open>
  \<open>WaitUntilDone\<close> returns an error or nil and may call \<open>callback.HandleTerminate\<close>
  once: the result is the pair of the returned error and the record handed to
  \<open>HandleTerminate\<close> (if it was called), or \<open>None\<close> when the reader never returns. The
  callback itself is not consulted otherwise.
\<close>

definition WaitUntilDone ::
    "world \<Rightarrow> string \<Rightarrow> string \<Rightarrow> string \<Rightarrow> (error option \<times> FIFOCommandResult option) option" where
  "WaitUntilDone w status_fn stdout_fn stderr_fn =
     (if \<not> FileExists (fs w) status_fn then Some (Some (StatusMissing status_fn), None)
      else if \<not> IsFIFO (fs w) status_fn then Some (Some (StatusNotAFifo status_fn), None)
      else
        (case read_status initial_reader_state (status_opens w) of
           None \<Rightarrow> None
         | Some (Inl err) \<Rightarrow> Some (Some err, None)
         | Some (Inr st) \<Rightarrow>
             (let stdout = (if stdout_fn \<noteq> []
                            then (case ReadFile w stdout_fn of None \<Rightarrow> [] | Some b \<Rightarrow> b)
                            else []);
                  stderr = (if stderr_fn \<noteq> []
                            then (case ReadFile w stderr_fn of None \<Rightarrow> [] | Some b \<Rightarrow> b)
                            else []);
                  result = \<lparr>Out = stdout, Err = stderr, SignalCodes = signal_codes st,
                              ExitCode = exit_code st, Pid = pid st\<rparr>
              in if err_occurred st then Some (Some (StatusError status_fn), None)
                 else Some (map_option OsError (Remove w (Dir status_fn)), Some result))))"

text \<open>
  Words of the specification of the status pipe. A terminal record is a line that starts
  with \<open>kill \<close>, \<open>exit \<close>, \<open>pid \<close> or \<open>err\<close>. A line stream is, for each open of
  the status pipe, the lines read with their \<open>isPrefix\<close> flags, with no failing open or
  read; \<open>complete\<close> picks the lines read whole.
\<close>

definition terminal_line :: "string \<Rightarrow> bool" where
  "terminal_line l \<longleftrightarrow>
     HasPrefix l ''kill '' \<or> HasPrefix l ''exit '' \<or> HasPrefix l ''pid '' \<or> HasPrefix l ''err''"

type_synonym line_stream = "(string \<times> bool) list list"

definition opens_of :: "line_stream \<Rightarrow> status_open list" where
  "opens_of stream = map (\<lambda>ses. Opened (map (\<lambda>(l, p). Line l p) ses)) stream"

definition complete :: "(string \<times> bool) list \<Rightarrow> string list" where
  "complete ses = map fst (filter (\<lambda>(l, p). \<not> p) ses)"

text \<open>
  The lines read whole up to the end of the first open that holds a terminal record:
  what the reader has processed when it stops.
\<close>

fun consumed :: "line_stream \<Rightarrow> string list" where
  "consumed [] = []"
| "consumed (ses # rest) =
     complete ses @ (if \<exists>l \<in> set (complete ses). terminal_line l then [] else consumed rest)"

text \<open>
  A world for the examples: an empty filesystem in which every call succeeds and the lock
  on the command pipe is free.
\<close>

definition calm_world :: world where
  "calm_world =
     \<lparr>fs = Map.empty,
      TempDir = (\<lambda>dir pre. Inr (dir @ ''/'' @ pre @ ''042'')),
      Mknod = (\<lambda>filename. None),
      lock_attempts = [Flock Locked],
      write_errors = [],
      status_opens = [],
      ReadFile = (\<lambda>filename. None),
      Remove = (\<lambda>filename. None)\<rparr>"

text \<open>The same world with a status pipe at \<open>/tmp/iexec042/status\<close> that delivers a stream.\<close>

definition status_world :: "line_stream \<Rightarrow> world" where
  "status_world stream =
     calm_world\<lparr>fs := [''/tmp/iexec042/status'' \<mapsto> NamedPipe], status_opens := opens_of stream\<rparr>"

section \<open>commands.go: the client write path\<close>

record FIFOCommand =
  Filename :: string
  Verbose :: bool
  ServerNonBlocking :: bool
  ClientNonBlocking :: bool
  ClientTTYShare :: bool
  Uid :: int
  Gid :: int
  Rootfs :: string

definition NewFIFOCommandForUser :: "string \<Rightarrow> string \<Rightarrow> int \<Rightarrow> int \<Rightarrow> FIFOCommand" where
  "NewFIFOCommandForUser filename client_prefix uid gid =
     \<lparr>Filename = filename, Verbose = True, ServerNonBlocking = True, ClientNonBlocking = False,
      ClientTTYShare = False, Uid = uid, Gid = gid, Rootfs = client_prefix\<rparr>"

definition NewFIFOCommand :: "string \<Rightarrow> string \<Rightarrow> FIFOCommand" where
  "NewFIFOCommand filename client_prefix =
     \<lparr>Filename = filename, Verbose = True, ServerNonBlocking = True, ClientNonBlocking = False,
      ClientTTYShare = False, Uid = 0, Gid = 0, Rootfs = client_prefix\<rparr>"

text \<open>
  A \<open>FIFOCallback\<close> is an interface; the write path asks it three questions, and the
  answers are all the model keeps. A nil callback is \<open>None\<close>. \<open>HandleTerminate\<close> is
  recorded by \<open>WaitUntilDone\<close> as the result delivered.
\<close>

record FIFOCallback =
  ShouldStoreStandardOutput :: bool
  ShouldStoreStandardError :: bool
  ShouldBlockUntilTerminated :: bool

text \<open>
  The command pipe while the client writes: every \<open>fmt.Fprintf(file, ...)\<close> is logged
  in \<open>attempts\<close> with the text and the error it returned, and takes its error from
  \<open>pending\<close> (no error when that list is used up).
\<close>

record cmd_pipe =
  attempts :: "(string \<times> nat option) list"
  pending :: "nat option list"

definition Fprintf :: "cmd_pipe \<Rightarrow> string \<Rightarrow> nat option \<times> cmd_pipe" where
  "Fprintf p text =
     (case pending p of
        [] \<Rightarrow> (None, p\<lparr>attempts := attempts p @ [(text, None)]\<rparr>)
      | err # rest \<Rightarrow> (err, \<lparr>attempts = attempts p @ [(text, err)], pending = rest\<rparr>))"

definition sentinel_line :: string where
  "sentinel_line = ''-*-EOFENDEOFEND-*-'' @ newline"

text \<open>The names computed before the lock is taken (all empty without a callback).\<close>

text \<open>
  The fields hold the variables \<open>server_tmp_dir\<close>, \<open>status_fn\<close>, \<open>stdout_fn\<close> and
  \<open>stderr_fn\<close> of the source.
\<close>

record status_files =
  server_tmp :: string
  status_file :: string
  stdout_file :: string
  stderr_file :: string

text \<open>
  The first block of \<open>ExecuteDaemonOnServerWithCallback\<close> (\<open>if (callback != nil)\<close>): the
  temporary directory and the status pipe are created, which the filesystem shows afterwards.
  The results of the two \<open>os.Chown\<close> calls are dropped by the source.
\<close>

definition prepare_status_files ::
    "FIFOCommand \<Rightarrow> world \<Rightarrow> FIFOCallback option \<Rightarrow> error + (status_files \<times> filesystem)" where
  "prepare_status_files this w callback =
     (case callback of
        None \<Rightarrow>
          Inr (\<lparr>server_tmp = [], status_file = [], stdout_file = [], stderr_file = []\<rparr>, fs w)
      | Some cb \<Rightarrow>
          (case TempDir w (Join [Rootfs this, ''/tmp'']) ''iexec'' of
             Inl err_dir \<Rightarrow> Inl (OsError err_dir)
           | Inr tmp_dir \<Rightarrow>
               (let status = Join [tmp_dir, ''status'']
                in case Mknod w status of
                     Some err_mkfifo \<Rightarrow> Inl (OsError err_mkfifo)
                   | None \<Rightarrow>
                       Inr (\<lparr>server_tmp = Join [''/tmp'', Base tmp_dir],
                             status_file = status,
                             stdout_file = (if ShouldStoreStandardOutput cb
                                          then Join [tmp_dir, ''stdout''] else []),
                             stderr_file = (if ShouldStoreStandardError cb
                                          then Join [tmp_dir, ''stderr''] else [])\<rparr>,
                            (fs w)(tmp_dir \<mapsto> Directory, status \<mapsto> NamedPipe)))))"

text \<open>
  The lock loop from the label \<open>try_again\<close>: open the pipe, call \<open>flock\<close>, and look at
  the error. When the attempts are used up the client is still waiting.
\<close>

datatype lock_outcome = Acquired | LockFails error | Waiting

fun acquire_lock :: "bool \<Rightarrow> lock_attempt list \<Rightarrow> lock_outcome" where
  "acquire_lock nonblocking [] = Waiting"
| "acquire_lock nonblocking (OpenFailed e # rest) = LockFails (OsError e)"
| "acquire_lock nonblocking (Flock r # rest) =
     (case r of
        Locked \<Rightarrow> Acquired
      | EWOULDBLOCK \<Rightarrow>
          if nonblocking then LockFails LockContended else acquire_lock nonblocking rest
      | EBADF \<Rightarrow> LockFails StrangeEBADF
      | EINTR \<Rightarrow> LockFails Interrupted
      | ENOLCK \<Rightarrow> LockFails OutOfKernelMemory
      | Errno e \<Rightarrow> LockFails (OsError e))"

text \<open>
  The header of an \<open>iexec\<close> frame. Each \<open>_, err = fmt.Fprintf(...)\<close> overwrites
  \<open>err\<close>; the write of \<open>--\<close> does not assign it. The value of \<open>err\<close> after the
  block is returned with the pipe.
\<close>

definition write_header ::
    "FIFOCallback option \<Rightarrow> status_files \<Rightarrow> cmd_pipe \<Rightarrow> nat option \<times> cmd_pipe" where
  "write_header callback sf p0 =
     (let (err, p) = Fprintf p0 (''iexec'' @ newline)
      in case callback of
           None \<Rightarrow> (err, p)
         | Some cb \<Rightarrow>
             (let (err, p) = Fprintf p (''-s'' @ newline);
                  (err, p) = Fprintf p (Join [server_tmp sf, ''status''] @ newline);
                  (err, p) = (if stdout_file sf \<noteq> []
                              then (let (err, p) = Fprintf p (''-o'' @ newline)
                                    in Fprintf p (Join [server_tmp sf, ''stdout''] @ newline))
                              else (err, p));
                  (err, p) = (if stderr_file sf \<noteq> []
                              then (let (err, p) = Fprintf p (''-e'' @ newline)
                                    in Fprintf p (Join [server_tmp sf, ''stderr''] @ newline))
                              else (err, p));
                  (unused, p) = Fprintf p (''--'' @ newline)
              in (err, p)))"

text \<open>
  The loop over \<open>args\<close>: when a write fails, the sentinel is written and the function
  returns the error of that sentinel write (\<open>_, err = fmt.Fprintf(file, sentinel); return
  err\<close>). \<open>Some err\<close> is this early return, \<open>None\<close> the end of the loop.
\<close>

fun write_args :: "string list \<Rightarrow> cmd_pipe \<Rightarrow> nat option option \<times> cmd_pipe" where
  "write_args [] p = (None, p)"
| "write_args (arg # rest) p =
     (let (err, p) = Fprintf p (arg @ newline)
      in if err \<noteq> None
         then (let (err, p) = Fprintf p sentinel_line in (Some err, p))
         else write_args rest p)"

text \<open>
  The frame, from the test of \<open>args[0]\<close> to the sentinel. \<open>args[0]\<close> on an empty slice
  is a run-time panic.
\<close>

datatype frame_outcome = FramePanics | FrameReturns "nat option" | FrameWritten

definition control_verb :: "string \<Rightarrow> bool" where
  "control_verb a \<longleftrightarrow> a = ''@restart'' \<or> a = ''@exit'' \<or> a = ''@alive''"

definition write_frame ::
    "string list \<Rightarrow> FIFOCallback option \<Rightarrow> status_files \<Rightarrow> cmd_pipe \<Rightarrow> frame_outcome \<times> cmd_pipe" where
  "write_frame args callback sf p0 =
     (case args of
        [] \<Rightarrow> (FramePanics, p0)
      | arg0 # others \<Rightarrow>
          (let (err, p) = (if arg0 \<noteq> ''@restart'' \<and> arg0 \<noteq> ''@exit'' \<and> arg0 \<noteq> ''@alive''
                           then write_header callback sf p0 else (None, p0))
           in if err \<noteq> None then (FrameReturns err, p)
              else (case write_args args p of
                      (Some err, p) \<Rightarrow> (FrameReturns err, p)
                    | (None, p) \<Rightarrow>
                        (let (unused, p) = Fprintf p sentinel_line in (FrameWritten, p)))))"

text \<open>
  What a call of the client does: it returns an error or nil, panics, or never returns
  (it waits for the lock or for the status pipe). \<open>written\<close> is the log of the writes to
  the command pipe, \<open>delivered\<close> the result handed to \<open>HandleTerminate\<close> before the
  call returned. With a callback that does not block, the status reader runs in a goroutine
  of its own and the call returns nil at once; that goroutine is not modelled.
\<close>

datatype exec_outcome = Returns "error option" | Panics | NeverReturns

record exec_result =
  outcome :: exec_outcome
  written :: "(string \<times> nat option) list"
  delivered :: "FIFOCommandResult option"

definition ExecuteDaemonOnServerWithCallback ::
    "FIFOCommand \<Rightarrow> world \<Rightarrow> string list \<Rightarrow> FIFOCallback option \<Rightarrow> exec_result" where
  "ExecuteDaemonOnServerWithCallback this w args callback =
     (case prepare_status_files this w callback of
        Inl err \<Rightarrow> \<lparr>outcome = Returns (Some err), written = [], delivered = None\<rparr>
      | Inr (sf, fs') \<Rightarrow>
          if \<not> FileExists fs' (Filename this) then
            \<lparr>outcome = Returns (Some (CommandMissing (Filename this))), written = [],
             delivered = None\<rparr>
          else if \<not> IsFIFO fs' (Filename this) then
            \<lparr>outcome = Returns (Some (CommandNotAFifo (Filename this))), written = [],
             delivered = None\<rparr>
          else
            (case acquire_lock (ClientNonBlocking this) (lock_attempts w) of
               Waiting \<Rightarrow> \<lparr>outcome = NeverReturns, written = [], delivered = None\<rparr>
             | LockFails err \<Rightarrow> \<lparr>outcome = Returns (Some err), written = [], delivered = None\<rparr>
             | Acquired \<Rightarrow>
                 (case write_frame args callback sf \<lparr>attempts = [], pending = write_errors w\<rparr> of
                    (FramePanics, p) \<Rightarrow>
                      \<lparr>outcome = Panics, written = attempts p, delivered = None\<rparr>
                  | (FrameReturns err, p) \<Rightarrow>
                      \<lparr>outcome = Returns (map_option OsError err), written = attempts p,
                       delivered = None\<rparr>
                  | (FrameWritten, p) \<Rightarrow>
                      (case callback of
                         None \<Rightarrow> \<lparr>outcome = Returns None, written = attempts p, delivered = None\<rparr>
                       | Some cb \<Rightarrow>
                           if ShouldBlockUntilTerminated cb then
                             (case WaitUntilDone (w\<lparr>fs := fs'\<rparr>) (status_file sf) (stdout_file sf)
                                     (stderr_file sf) of
                                None \<Rightarrow>
                                  \<lparr>outcome = NeverReturns, written = attempts p, delivered = None\<rparr>
                              | Some (process_err, result) \<Rightarrow>
                                  \<lparr>outcome = Returns process_err, written = attempts p,
                                   delivered = result\<rparr>)
                           else \<lparr>outcome = Returns None, written = attempts p,
                                 delivered = None\<rparr>))))"

definition ExecuteDaemonOnServer :: "FIFOCommand \<Rightarrow> world \<Rightarrow> string list \<Rightarrow> exec_result" where
  "ExecuteDaemonOnServer this w args = ExecuteDaemonOnServerWithCallback this w args None"

text \<open>
  \<open>ExecuteDaemonOnServerBlockOnClient\<close> passes a \<open>SimpleFIFOCallback\<close> that blocks and
  stores both streams; its \<open>HandleTerminate\<close> copies the result into the record that the
  function returns, which starts as \<open>{nil, nil, nil, 0, 0}\<close>.
\<close>

definition ExecuteDaemonOnServerBlockOnClient ::
    "FIFOCommand \<Rightarrow> world \<Rightarrow> string list \<Rightarrow> FIFOCommandResult \<times> exec_result" where
  "ExecuteDaemonOnServerBlockOnClient this w args =
     (let callback = \<lparr>ShouldStoreStandardOutput = True, ShouldStoreStandardError = True,
                       ShouldBlockUntilTerminated = True\<rparr>;
          r = ExecuteDaemonOnServerWithCallback this w args (Some callback);
          result = (case delivered r of
                      None \<Rightarrow> \<lparr>Out = [], Err = [], SignalCodes = [], ExitCode = 0, Pid = 0\<rparr>
                    | Some res \<Rightarrow> res)
      in (result, r))"

text \<open>
  A world in which the command pipe \<open>/root/.cmd\<close> exists and everything succeeds, and a
  client for it.
\<close>

definition pipe_world :: world where
  "pipe_world = calm_world\<lparr>fs := [''/root/.cmd'' \<mapsto> NamedPipe]\<rparr>"

definition root_client :: FIFOCommand where
  "root_client = NewFIFOCommand ''/root/.cmd'' []"

section \<open>container.go\<close>

record ImageSet =
  name :: string
  idir :: string
  rootfs :: string
  rootfs_archive_path :: string

record Container =
  name :: string
  cdir :: string
  meta_dir :: string
  rootfs :: string
  private_dir :: string
  config_pathname :: string
  fstab_pathname :: string
  image_set :: "ImageSet option"
  Cgroup_info :: CgroupInfo
  Soft_limits :: "ResourceLimits option"
  Hard_limits :: "ResourceLimits option"

text \<open>\<open>GetDefaultCgroupInfo\<close> of cgroups.go, the entries in the order of the literal.\<close>

definition GetDefaultCgroupInfo :: "string \<Rightarrow> string \<Rightarrow> string \<Rightarrow> CgroupInfo" where
  "GetDefaultCgroupInfo container_name rootfs_path fstab =
     [(''lxc.utsname'', [container_name]),
      (''lxc.tty'', [''4'']),
      (''lxc.pts'', [''1024'']),
      (''lxc.rootfs'', [rootfs_path]),
      (''lxc.mount'', [fstab]),
      (''lxc.arch'', [''amd64'']),
      (''lxc.cap.drop'', [''sys_module'']),
      (''lxc.network.type'', [''veth'']),
      (''lxc.network.flags'', [''up'']),
      (''lxc.network.name'', [''eth0'']),
      (''lxc.network.link'', [''br0'']),
      (''lxc.network.ipv4'', [''0.0.0.0'']),
      (''lxc.cgroup.devices.deny'', [''a'']),
      (''lxc.cgroup.devices.allow'',
         [''c *:* m'', ''b *:* m'', ''c 1:3 rwm'', ''c 1:5 rwm'', ''c 5:1 rwm'',
          ''c 5:0 rwm'', ''c 4:0 rwm'', ''c 4:1 rwm'', ''c 1:9 rwm'', ''c 1:8 rwm'',
          ''c 136:* rwm'', ''c 5:2 rwm'', ''c 254:0 rwm'', ''c 10:229 rwm'', ''c 10:200 rwm''])]"

definition NewContainerFromDefaultCache :: "string \<Rightarrow> string \<Rightarrow> Container" where
  "NewContainerFromDefaultCache container_name containers_path =
     (let container_dir = Join [containers_path, container_name];
          rootfs_path = Join [container_dir, ''rootfs''];
          fstab = Join [container_dir, ''fstab'']
      in \<lparr>name = container_name,
          cdir = container_dir,
          meta_dir = Join [container_dir, ''meta''],
          rootfs = rootfs_path,
          private_dir = Join [container_dir, ''private-data''],
          config_pathname = Join [container_dir, ''config''],
          fstab_pathname = fstab,
          image_set = None,
          Cgroup_info = GetDefaultCgroupInfo container_name rootfs_path fstab,
          Soft_limits = None,
          Hard_limits = None\<rparr>)"

definition GetHomeDirectory :: "Container \<Rightarrow> string \<Rightarrow> string" where
  "GetHomeDirectory this user = (if user = ''root'' then ''/root'' else ''/home/'' @ user)"

text \<open>
  \<open>ExecuteImpl\<close> returns a result pointer (nil is \<open>None\<close>) and an error, or panics. For a
  user other than \<open>root\<close> and \<open>web\<close> the source builds an error with \<open>errors.New\<close> and
  drops it, so \<open>fifo_command\<close> stays nil; the call of its method then reads a field through
  the nil pointer (\<open>this.Rootfs\<close> with a callback, \<open>this.Filename\<close> without), which is a
  run-time panic. The result pointer means something only when the call returns.
\<close>

definition ExecuteImpl ::
    "Container \<Rightarrow> world \<Rightarrow> string \<Rightarrow> string list \<Rightarrow> bool \<Rightarrow> FIFOCommandResult option \<times> exec_outcome" where
  "ExecuteImpl this w user args blocked =
     (let home_dir = GetHomeDirectory this user;
          home_dir_on_host = Join [rootfs this, home_dir]
      in if \<not> DirExists (fs w) home_dir_on_host
         then (None, Returns (Some (HomeMissing user home_dir_on_host)))
         else
           (let cmd_file = Join [home_dir_on_host, ''.cmd''];
                fifo_command =
                  (if user = ''root'' then Some (NewFIFOCommandForUser cmd_file (rootfs this) 0 0)
                   else if user = ''web''
                     then Some (NewFIFOCommandForUser cmd_file (rootfs this) 1000 1000)
                   else None)
            in case fifo_command of
                 None \<Rightarrow> (None, Panics)
               | Some fc \<Rightarrow>
                   if blocked
                   then (let (result, r) = ExecuteDaemonOnServerBlockOnClient fc w args
                         in (Some result, outcome r))
                   else (None, outcome (ExecuteDaemonOnServer fc w args))))"

definition IsMounted :: "Container \<Rightarrow> filesystem \<Rightarrow> bool" where
  "IsMounted this fsys = DirExists fsys (Join [rootfs this, ''/etc''])"

definition IsRunning :: "Container \<Rightarrow> filesystem \<Rightarrow> bool" where
  "IsRunning this fsys = DirExists fsys (Join [''/cgroup/lxc'', name this])"

definition IsCreated :: "Container \<Rightarrow> filesystem \<Rightarrow> bool" where
  "IsCreated this fsys \<longleftrightarrow>
     DirExists fsys (rootfs this) \<and>
     DirExists fsys (meta_dir this) \<and>
     DirExists fsys (private_dir this) \<and>
     FileExists fsys (config_pathname this) \<and>
     FileExists fsys (fstab_pathname this)"

text \<open>
  Examples: the container \<open>c1\<close> under \<open>/web\<close>, and three states of the filesystem.
  \<open>config_missing_fs\<close> is what \<open>Create\<close> leaves when the mount succeeded and
  \<open>WriteConfig\<close> failed: the root filesystem is mounted, the config file is not there.
  \<open>unmounted_running_fs\<close> has every file of the container and its cgroup directory, and
  nothing mounted on \<open>rootfs\<close>. \<open>started_fs\<close> has everything, with a home directory for a
  user \<open>bob\<close>.
\<close>

definition container_c1 :: Container where
  "container_c1 = NewContainerFromDefaultCache ''c1'' ''/web''"

definition config_missing_fs :: filesystem where
  "config_missing_fs =
     map_of [(''/web'', Directory), (''/web/c1'', Directory), (''/web/c1/rootfs'', Directory),
             (''/web/c1/rootfs/etc'', Directory), (''/web/c1/meta'', Directory),
             (''/web/c1/private-data'', Directory), (''/web/c1/fstab'', Regular)]"

definition unmounted_running_fs :: filesystem where
  "unmounted_running_fs =
     map_of [(''/web'', Directory), (''/web/c1'', Directory), (''/web/c1/rootfs'', Directory),
             (''/web/c1/meta'', Directory), (''/web/c1/private-data'', Directory),
             (''/web/c1/config'', Regular), (''/web/c1/fstab'', Regular),
             (''/cgroup'', Directory), (''/cgroup/lxc'', Directory),
             (''/cgroup/lxc/c1'', Directory)]"

definition started_fs :: filesystem where
  "started_fs =
     map_of [(''/web'', Directory), (''/web/c1'', Directory), (''/web/c1/rootfs'', Directory),
             (''/web/c1/rootfs/etc'', Directory), (''/web/c1/rootfs/root'', Directory),
             (''/web/c1/rootfs/root/.cmd'', NamedPipe), (''/web/c1/rootfs/home'', Directory),
             (''/web/c1/rootfs/home/web'', Directory),
             (''/web/c1/rootfs/home/web/.cmd'', NamedPipe),
             (''/web/c1/rootfs/home/bob'', Directory),
             (''/web/c1/meta'', Directory), (''/web/c1/private-data'', Directory),
             (''/web/c1/config'', Regular), (''/web/c1/fstab'', Regular),
             (''/cgroup'', Directory), (''/cgroup/lxc'', Directory),
             (''/cgroup/lxc/c1'', Directory)]"

section \<open>Properties of limits.go\<close>

lemma append_limit_prefix: "prefix buffer (append_limit flag v buffer)"
  by (simp add: append_limit_def)

lemma foldl_append_limit_prefix:
  "prefix buffer (foldl (\<lambda>buffer (flag, v). append_limit flag v buffer) buffer flags)"
proof (induction flags arbitrary: buffer)
  case Nil
  show ?case by simp
next
  case (Cons f flags)
  obtain flag v where f: "f = (flag, v)" by (cases f)
  have "prefix buffer (append_limit flag v buffer)"
    by (rule append_limit_prefix)
  also have "prefix (append_limit flag v buffer)
      (foldl (\<lambda>buffer (flag, v). append_limit flag v buffer) (append_limit flag v buffer) flags)"
    by (rule Cons.IH)
  finally show ?case by (simp add: f)
qed

lemma soft_args_prefix: "prefix buffer (soft_args s buffer)"
  unfolding soft_args_def by (rule foldl_append_limit_prefix)

lemma hard_args_prefix: "prefix buffer (hard_args h buffer)"
  unfolding hard_args_def by (rule foldl_append_limit_prefix)

lemma arg_string_prefix:
  "prefix (replicate 1024 (CHR 0x00)) (ResourceLimitsToIexecArgString soft hard)"
proof -
  let ?b = "replicate 1024 (CHR 0x00)"
  let ?b1 = "case soft of None \<Rightarrow> ?b | Some s \<Rightarrow> soft_args s ?b"
  have 1: "prefix ?b ?b1"
    by (cases soft) (simp_all add: soft_args_prefix)
  have 2: "prefix ?b1 (case hard of None \<Rightarrow> ?b1 | Some h \<Rightarrow> hard_args h ?b1)"
    by (cases hard) (simp_all add: hard_args_prefix)
  from 1 2 have "prefix ?b (case hard of None \<Rightarrow> ?b1 | Some h \<Rightarrow> hard_args h ?b1)"
    by (rule prefix_order.trans)
  then show ?thesis
    by (simp add: ResourceLimitsToIexecArgString_def Let_def)
qed

lemma soft_args_unchanged: "all_unchanged s \<Longrightarrow> soft_args s buffer = buffer"
  by (simp add: soft_args_def all_unchanged_def append_limit_def)

lemma hard_args_unchanged: "all_unchanged h \<Longrightarrow> hard_args h buffer = buffer"
  by (simp add: hard_args_def all_unchanged_def append_limit_def)

lemma arg_string_unset:
  assumes "limits_unset soft" and "limits_unset hard"
  shows "ResourceLimitsToIexecArgString soft hard = replicate 1024 (CHR 0x00)"
  using assms
  by (cases soft; cases hard)
     (simp_all add: ResourceLimitsToIexecArgString_def limits_unset_def
        soft_args_unchanged hard_args_unchanged)

text \<open>
  Claim C10. For all soft and hard records, nil included, the string returned by
  \<open>ResourceLimitsToIexecArgString\<close> begins with 1024 zero bytes, because the buffer is made
  with length 1024. When each record is nil or has every field at \<open>RLIMIT_UNCHANGED\<close>, the
  result is exactly 1024 zero bytes and so is not the empty string.
\<close>

theorem ResourceLimitsToIexecArgString_nul_bytes:
  "take 1024 (ResourceLimitsToIexecArgString soft hard) = replicate 1024 (CHR 0x00) \<and>
   (limits_unset soft \<and> limits_unset hard \<longrightarrow>
      ResourceLimitsToIexecArgString soft hard = replicate 1024 (CHR 0x00) \<and>
      length (ResourceLimitsToIexecArgString soft hard) = 1024 \<and>
      ResourceLimitsToIexecArgString soft hard \<noteq> [])"
proof -
  obtain zs where zs:
      "ResourceLimitsToIexecArgString soft hard = replicate 1024 (CHR 0x00) @ zs"
    using arg_string_prefix [of soft hard] by (auto elim: prefixE)
  have "take 1024 (ResourceLimitsToIexecArgString soft hard) = replicate 1024 (CHR 0x00)"
    by (simp add: zs)
  moreover have "ResourceLimitsToIexecArgString soft hard \<noteq> []"
    by (simp add: zs)
  moreover have "limits_unset soft \<and> limits_unset hard \<longrightarrow>
      ResourceLimitsToIexecArgString soft hard = replicate 1024 (CHR 0x00) \<and>
      length (ResourceLimitsToIexecArgString soft hard) = 1024"
    by (simp add: arg_string_unset)
  ultimately show ?thesis by blast
qed

theorem ResourceLimitsToIexecArgString_nul_bytes_witness:
  "limits_unset None \<and> limits_unset (Some NewResourceLimits) \<and>
   take 1024 (ResourceLimitsToIexecArgString None (Some NewResourceLimits)) =
     replicate 1024 (CHR 0x00) \<and>
   ResourceLimitsToIexecArgString None (Some NewResourceLimits) = replicate 1024 (CHR 0x00) \<and>
   ResourceLimitsToIexecArgString None (Some NewResourceLimits) \<noteq> []"
proof -
  have u: "limits_unset None" "limits_unset (Some NewResourceLimits)"
    by (simp_all add: limits_unset_def all_unchanged_def NewResourceLimits_def)
  show ?thesis
    using u ResourceLimitsToIexecArgString_nul_bytes [of None "Some NewResourceLimits"]
    by blast
qed

section \<open>Properties of cgroups.go\<close>

lemma keyset_fold:
  "foldl (\<lambda>keyset key. keyset(key := True)) ks keys k \<longleftrightarrow> ks k \<or> k \<in> set keys"
  by (induction keys arbitrary: ks) auto

lemma keyset_iff: "snd GetCGroupKeyArrayAndSet k \<longleftrightarrow> k \<in> set GetCGroupKeys"
  by (simp add: GetCGroupKeyArrayAndSet_def Let_def keyset_fold)

lemma keys_array: "fst GetCGroupKeyArrayAndSet = GetCGroupKeys"
  by (simp add: GetCGroupKeyArrayAndSet_def Let_def)

lemma check_keys_None:
  "check_keys keyset info = None \<longleftrightarrow> (\<forall>key \<in> fst ` set info. keyset key)"
  by (induction keyset info rule: check_keys.induct) auto

lemma check_keys_Some:
  "check_keys keyset info = Some e \<Longrightarrow>
     \<exists>key \<in> fst ` set info. \<not> keyset key \<and> e = InvalidConfigKey key"
  by (induction keyset info rule: check_keys.induct) (auto split: if_splits)

lemma foldl_lines:
  "foldl (\<lambda>buffer value. buffer @ f value) buffer vs = buffer @ concat (map f vs)"
  by (induction vs arbitrary: buffer) simp_all

lemma render_key_eq:
  "render_key info buffer key =
     buffer @ concat (map (\<lambda>value. key @ '' = '' @ value @ newline)
                        (case map_of info key of None \<Rightarrow> [] | Some vs \<Rightarrow> vs))"
  by (simp add: render_key_def foldl_lines split: option.splits)

lemma foldl_render_key:
  "foldl (render_key info) buffer keys =
     buffer @ concat (map (\<lambda>key. concat (map (\<lambda>value. key @ '' = '' @ value @ newline)
                        (case map_of info key of None \<Rightarrow> [] | Some vs \<Rightarrow> vs))) keys)"
  by (induction keys arbitrary: buffer) (simp_all add: render_key_eq)

lemma GetCgroupInfoBytes_cases:
  "GetCgroupInfoBytes info =
     (case check_keys (\<lambda>k. k \<in> set GetCGroupKeys) info of
        Some err \<Rightarrow> Inl err
      | None \<Rightarrow> Inr (allow_list_lines info))"
proof -
  have "snd GetCGroupKeyArrayAndSet = (\<lambda>k. k \<in> set GetCGroupKeys)"
    by (rule ext) (rule keyset_iff)
  then show ?thesis
    using keys_array
    by (simp add: GetCgroupInfoBytes_def case_prod_beta allow_list_lines_def foldl_render_key
          split: option.splits)
qed

text \<open>
  Claim C6. \<open>GetCgroupInfoBytes\<close> returns an invalid-key error if and only if some key of
  the mapping is outside the allow-list \<open>GetCGroupKeys\<close> (and the error names such a key);
  when every key is in the allow-list it succeeds with, in the order of the allow-list, one
  line \<open>key = value\<close> for each value of each key present, and nothing else.
\<close>

theorem GetCgroupInfoBytes_allow_list:
  "((\<exists>err. GetCgroupInfoBytes info = Inl err) \<longleftrightarrow>
      (\<exists>key \<in> fst ` set info. key \<notin> set GetCGroupKeys)) \<and>
   (\<forall>err. GetCgroupInfoBytes info = Inl err \<longrightarrow>
      (\<exists>key \<in> fst ` set info. key \<notin> set GetCGroupKeys \<and> err = InvalidConfigKey key)) \<and>
   ((\<forall>key \<in> fst ` set info. key \<in> set GetCGroupKeys) \<longrightarrow>
      GetCgroupInfoBytes info = Inr (allow_list_lines info))"
proof (cases "check_keys (\<lambda>k. k \<in> set GetCGroupKeys) info")
  case None
  then have "\<forall>key \<in> fst ` set info. key \<in> set GetCGroupKeys"
    by (simp add: check_keys_None)
  moreover from None have "GetCgroupInfoBytes info = Inr (allow_list_lines info)"
    by (simp add: GetCgroupInfoBytes_cases)
  ultimately show ?thesis by auto
next
  case (Some e)
  then obtain key where "key \<in> fst ` set info" "key \<notin> set GetCGroupKeys"
      "e = InvalidConfigKey key"
    by (blast dest: check_keys_Some)
  moreover from Some have "GetCgroupInfoBytes info = Inl e"
    by (simp add: GetCgroupInfoBytes_cases)
  ultimately show ?thesis by auto
qed

theorem GetCgroupInfoBytes_allow_list_witness:
  "''lxc.arch'' \<in> set GetCGroupKeys \<and> ''lxc.tty'' \<in> set GetCGroupKeys \<and>
   GetCgroupInfoBytes [(''lxc.arch'', [''amd64'']), (''lxc.tty'', [''4''])] =
     Inr (''lxc.tty = 4'' @ newline @ ''lxc.arch = amd64'' @ newline) \<and>
   ''lxc.bogus'' \<notin> set GetCGroupKeys \<and>
   GetCgroupInfoBytes [(''lxc.tty'', [''4'']), (''lxc.bogus'', [''1''])] =
     Inl (InvalidConfigKey ''lxc.bogus'')"
proof -
  let ?good = "[(''lxc.arch'', [''amd64'']), (''lxc.tty'', [''4''])]"
  let ?bad = "[(''lxc.tty'', [''4'']), (''lxc.bogus'', [''1''])]"
  have g: "\<forall>key \<in> fst ` set ?good. key \<in> set GetCGroupKeys"
    by (simp add: GetCGroupKeys_def)
  have b: "\<exists>key \<in> fst ` set ?bad. key \<notin> set GetCGroupKeys"
    by (simp add: GetCGroupKeys_def)
  have l: "allow_list_lines ?good = ''lxc.tty = 4'' @ newline @ ''lxc.arch = amd64'' @ newline"
    by (simp add: allow_list_lines_def GetCGroupKeys_def)
  from g GetCgroupInfoBytes_allow_list [of ?good]
  have 1: "GetCgroupInfoBytes ?good = Inr (allow_list_lines ?good)"
    by blast
  from b GetCgroupInfoBytes_allow_list [of ?bad]
  obtain err key where e: "GetCgroupInfoBytes ?bad = Inl err"
      "key \<in> fst ` set ?bad" "key \<notin> set GetCGroupKeys" "err = InvalidConfigKey key"
    by blast
  from e(2,3) have "key = ''lxc.bogus''"
    by (auto simp: GetCGroupKeys_def)
  with e have 2: "GetCgroupInfoBytes ?bad = Inl (InvalidConfigKey ''lxc.bogus'')"
    by simp
  have m: "''lxc.arch'' \<in> set GetCGroupKeys" "''lxc.tty'' \<in> set GetCGroupKeys"
      "''lxc.bogus'' \<notin> set GetCGroupKeys"
    by (simp_all add: GetCGroupKeys_def)
  from m 1 2 l show ?thesis by simp
qed

lemma check_keys_map_of:
  assumes "map_of info1 = map_of info2"
  shows "check_keys keyset info1 = None \<longleftrightarrow> check_keys keyset info2 = None"
proof -
  have "fst ` set info1 = fst ` set info2"
    using assms by (metis dom_map_of_conv_image_fst)
  then show ?thesis
    by (simp add: check_keys_None)
qed

lemma allow_list_lines_map_of:
  "map_of info1 = map_of info2 \<Longrightarrow> allow_list_lines info1 = allow_list_lines info2"
  by (simp add: allow_list_lines_def)

text \<open>
  Claim C7. The renderer is deterministic although its input is an unordered map: two runs
  on the same mapping, whatever the orders in which Go visits its entries, return the same
  byte slice (the same bytes on success, nil beside an error on failure).
\<close>

theorem GetCgroupInfoBytes_deterministic:
  assumes "map_of info1 = map_of info2"
  shows "returned_bytes (GetCgroupInfoBytes info1) = returned_bytes (GetCgroupInfoBytes info2)"
proof (cases "check_keys (\<lambda>k. k \<in> set GetCGroupKeys) info1")
  case None
  then have "check_keys (\<lambda>k. k \<in> set GetCGroupKeys) info2 = None"
    using check_keys_map_of [OF assms, of "\<lambda>k. k \<in> set GetCGroupKeys"] by simp
  with None show ?thesis
    by (simp add: GetCgroupInfoBytes_cases returned_bytes_def allow_list_lines_map_of [OF assms])
next
  case (Some e)
  then have "check_keys (\<lambda>k. k \<in> set GetCGroupKeys) info2 \<noteq> None"
    using check_keys_map_of [OF assms, of "\<lambda>k. k \<in> set GetCGroupKeys"] by simp
  with Some show ?thesis
    by (auto simp: GetCgroupInfoBytes_cases returned_bytes_def)
qed

theorem GetCgroupInfoBytes_deterministic_witness:
  "map_of [(''lxc.arch'', [''amd64'']), (''lxc.tty'', [''4''])] =
     map_of [(''lxc.tty'', [''4'']), (''lxc.arch'', [''amd64''])] \<and>
   returned_bytes (GetCgroupInfoBytes [(''lxc.arch'', [''amd64'']), (''lxc.tty'', [''4''])]) =
     returned_bytes (GetCgroupInfoBytes [(''lxc.tty'', [''4'']), (''lxc.arch'', [''amd64''])])"
proof -
  have m: "map_of [(''lxc.arch'', [''amd64'']), (''lxc.tty'', [''4''])] =
      map_of [(''lxc.tty'', [''4'']), (''lxc.arch'', [''amd64''])]"
    by (rule ext) simp
  show ?thesis
    using m GetCgroupInfoBytes_deterministic [OF m] by simp
qed

text \<open>
  The error value is outside this: when several keys are invalid, the key that the error
  names is the first one Go happens to visit.
\<close>

lemma GetCgroupInfoBytes_error_names_first_visited:
  "GetCgroupInfoBytes [(''lxc.x'', []), (''lxc.y'', [])] = Inl (InvalidConfigKey ''lxc.x'')"
  "GetCgroupInfoBytes [(''lxc.y'', []), (''lxc.x'', [])] = Inl (InvalidConfigKey ''lxc.y'')"
  by (simp_all add: GetCgroupInfoBytes_cases GetCGroupKeys_def)

section \<open>Properties of the Go library functions\<close>

lemma Split_nonempty: "Split s sep \<noteq> []"
  by (induction s) (auto split: list.splits)

lemma Split_no_sep: "sep \<notin> set s \<Longrightarrow> Split s sep = [s]"
  by (induction s) (auto split: list.splits)

lemma Split_append_sep: "sep \<notin> set a \<Longrightarrow> Split (a @ sep # b) sep = a # Split b sep"
  by (induction a) (auto split: list.splits)

lemma HasPrefix_iff: "HasPrefix l pre \<longleftrightarrow> (\<exists>rest. l = pre @ rest)"
proof
  assume "HasPrefix l pre"
  then have "l = pre @ drop (length pre) l"
    by (metis HasPrefix_def append_take_drop_id)
  then show "\<exists>rest. l = pre @ rest" ..
next
  assume "\<exists>rest. l = pre @ rest"
  then show "HasPrefix l pre" by (auto simp: HasPrefix_def)
qed

lemma digit_char_props:
  assumes "d < 10"
  shows "is_digit (digit_char d)" and "digit_val (digit_char d) = d"
  using assms by (simp_all add: is_digit_def digit_val_def digit_char_def)

lemma dec_nat_nonempty: "dec_nat k \<noteq> []"
  by (subst dec_nat.simps) simp

lemma dec_nat_digits: "c \<in> set (dec_nat k) \<Longrightarrow> is_digit c"
proof (induction k rule: dec_nat.induct)
  case (1 n)
  show ?case
  proof (cases "n < 10")
    case True
    with "1.prems" show ?thesis
      by (subst (asm) dec_nat.simps) (simp add: digit_char_props)
  next
    case False
    with "1.prems" have "c \<in> set (dec_nat (n div 10)) \<or> c = digit_char (n mod 10)"
      by (subst (asm) dec_nat.simps) auto
    with False "1.IH" show ?thesis
      by (auto simp: digit_char_props)
  qed
qed

lemma ParseUint_from_append:
  "ParseUint_from n (xs @ ys) =
     (case ParseUint_from n xs of Value m \<Rightarrow> ParseUint_from m ys | ErrSyntax \<Rightarrow> ErrSyntax
        | ErrRange \<Rightarrow> ErrRange)"
  by (induction xs arbitrary: n) simp_all

lemma ParseUint_from_digit:
  assumes "d < 10" and "n * 10 + d \<le> maxUint64"
  shows "ParseUint_from n [digit_char d] = Value (n * 10 + d)"
proof -
  from assms(2) have "n \<le> maxUint64 div 10" by simp
  with assms show ?thesis
    by (simp add: digit_char_props)
qed

lemma ParseUint_from_dec_nat:
  "n * 10 ^ length (dec_nat k) + k \<le> maxUint64 \<Longrightarrow>
   ParseUint_from n (dec_nat k) = Value (n * 10 ^ length (dec_nat k) + k)"
proof (induction k arbitrary: n rule: dec_nat.induct)
  case (1 k)
  show ?case
  proof (cases "k < 10")
    case True
    then have d: "dec_nat k = [digit_char k]"
      by (subst dec_nat.simps) simp
    from "1.prems" True have "ParseUint_from n [digit_char k] = Value (n * 10 + k)"
      by (intro ParseUint_from_digit) (simp_all add: d)
    then show ?thesis
      by (simp add: d del: ParseUint_from.simps)
  next
    case False
    let ?q = "k div 10"
    let ?len = "length (dec_nat ?q)"
    from False have d: "dec_nat k = dec_nat ?q @ [digit_char (k mod 10)]"
      by (subst dec_nat.simps) simp
    have k: "k = ?q * 10 + k mod 10" by simp
    from "1.prems" have b: "(n * 10 ^ ?len + ?q) * 10 + k mod 10 \<le> maxUint64"
      by (simp add: d algebra_simps)
    then have "n * 10 ^ ?len + ?q \<le> maxUint64" by simp
    with False have "ParseUint_from n (dec_nat ?q) = Value (n * 10 ^ ?len + ?q)"
      by (intro "1.IH") simp_all
    moreover have "ParseUint_from (n * 10 ^ ?len + ?q) [digit_char (k mod 10)] =
        Value ((n * 10 ^ ?len + ?q) * 10 + k mod 10)"
      using b by (intro ParseUint_from_digit) simp_all
    ultimately show ?thesis
      by (simp add: d ParseUint_from_append algebra_simps)
  qed
qed

lemma ParseUint_dec_nat: "k \<le> maxUint64 \<Longrightarrow> ParseUint (dec_nat k) = Value k"
  using ParseUint_from_dec_nat [of 0 k] by (simp add: ParseUint_def dec_nat_nonempty)

lemma is_digit_not_sign: "is_digit c \<Longrightarrow> c \<noteq> CHR ''-'' \<and> c \<noteq> CHR ''+''"
  by (auto simp: is_digit_def)

lemma ParseInt_dec_int:
  assumes "- (2 ^ 63) \<le> N" and "N < 2 ^ 63"
  shows "ParseInt (dec_int N) = N"
proof (cases "N < 0")
  case True
  let ?k = "nat (- N)"
  from assms True have k: "?k \<le> 2 ^ 63" by simp
  then have "?k \<le> maxUint64" by (simp add: maxUint64_def)
  then have "ParseUint (dec_nat ?k) = Value ?k" by (rule ParseUint_dec_nat)
  with True k show ?thesis
    by (simp add: ParseInt_def dec_int_def)
next
  case False
  let ?k = "nat N"
  from assms False have k: "?k < 2 ^ 63" by simp
  then have "?k \<le> maxUint64" by (simp add: maxUint64_def)
  then have p: "ParseUint (dec_nat ?k) = Value ?k" by (rule ParseUint_dec_nat)
  obtain c cs where s: "dec_nat ?k = c # cs"
    using dec_nat_nonempty [of ?k] by (cases "dec_nat ?k") auto
  then have "is_digit c" using dec_nat_digits [of c ?k] by simp
  then have "c \<noteq> CHR ''-''" "c \<noteq> CHR ''+''" by (simp_all add: is_digit_not_sign)
  with False k p s show ?thesis
    by (simp add: ParseInt_def dec_int_def)
qed

lemma dec_int_no_space: "CHR '' '' \<notin> set (dec_int N)"
proof -
  have "\<not> is_digit (CHR '' '')" by (simp add: is_digit_def)
  then have "CHR '' '' \<notin> set (dec_nat k)" for k
    using dec_nat_digits by blast
  then show ?thesis by (simp add: dec_int_def)
qed

section \<open>Properties of the status reader\<close>

lemma stop_cont_not_err:
  "HasPrefix l ''stop '' \<or> HasPrefix l ''cont '' \<Longrightarrow> \<not> HasPrefix l ''err''"
  by (auto simp: HasPrefix_iff)

lemma stop_cont_not_terminal:
  "HasPrefix l ''stop '' \<or> HasPrefix l ''cont '' \<Longrightarrow> \<not> terminal_line l"
  by (auto simp: HasPrefix_iff terminal_line_def)

lemma exit_not_kill: "HasPrefix l ''exit '' \<Longrightarrow> \<not> HasPrefix l ''kill ''"
  by (auto simp: HasPrefix_iff)

lemma terminated_process_line:
  "terminated (process_line st l) \<longleftrightarrow> terminated st \<or> terminal_line l"
  using stop_cont_not_err [of l]
  by (auto simp: process_line_def terminal_line_def Let_def split: option.splits)

lemma parse_code_prefix:
  assumes "HasPrefix l (a @ '' '')" and "CHR '' '' \<notin> set a"
  shows "parse_code l = Some (ParseInt (Split l (CHR '' '') ! 1))"
proof -
  from assms(1) obtain r where l: "l = a @ CHR '' '' # r"
    by (auto simp: HasPrefix_iff)
  have "Split l (CHR '' '') = a # Split r (CHR '' '')"
    unfolding l using assms(2) by (rule Split_append_sep)
  moreover have "Split r (CHR '' '') \<noteq> []"
    by (rule Split_nonempty)
  ultimately have "length (Split l (CHR '' '')) > 1"
    by (cases "Split r (CHR '' '')") simp_all
  then show ?thesis
    by (simp add: parse_code_def Let_def)
qed

lemma process_line_stop_cont:
  assumes "HasPrefix l ''stop '' \<or> HasPrefix l ''cont ''"
  shows "process_line st l = st\<lparr>signal_codes := signal_codes st @ [ParseInt (Split l (CHR '' '') ! 1)]\<rparr>"
proof -
  have pc: "parse_code l = Some (ParseInt (Split l (CHR '' '') ! 1))"
    using assms parse_code_prefix [of l "''stop''"] parse_code_prefix [of l "''cont''"]
    by auto
  have "\<not> HasPrefix l ''kill ''" "\<not> HasPrefix l ''exit ''" "\<not> HasPrefix l ''pid ''"
    using assms by (auto simp: HasPrefix_iff)
  then show ?thesis
    using assms by (simp add: process_line_def pc)
qed

lemma process_line_other:
  assumes "\<not> terminal_line l" "\<not> HasPrefix l ''stop ''" "\<not> HasPrefix l ''cont ''"
  shows "process_line st l = st"
  using assms by (simp add: process_line_def terminal_line_def)

lemma read_lines_stream:
  "read_lines st (map (\<lambda>(l, p). Line l p) ses) = Inr (foldl process_line st (complete ses))"
  by (induction ses arbitrary: st) (auto simp: complete_def)

lemma terminated_foldl:
  "terminated (foldl process_line st ls) \<longleftrightarrow> terminated st \<or> (\<exists>l \<in> set ls. terminal_line l)"
  by (induction ls arbitrary: st) (auto simp: terminated_process_line)

lemma read_status_stream:
  "\<not> terminated st \<Longrightarrow>
   read_status st (opens_of stream) =
     (if \<exists>ses \<in> set stream. \<exists>l \<in> set (complete ses). terminal_line l
      then Some (Inr (foldl process_line st (consumed stream))) else None)"
proof (induction stream arbitrary: st)
  case Nil
  then show ?case by (simp add: opens_of_def)
next
  case (Cons ses stream)
  let ?st' = "foldl process_line st (complete ses)"
  show ?case
  proof (cases "\<exists>l \<in> set (complete ses). terminal_line l")
    case True
    then have t: "terminated ?st'" by (simp add: terminated_foldl)
    have "read_status ?st' (opens_of stream) = Some (Inr ?st')"
      using t by (cases "opens_of stream") simp_all
    with True Cons.prems show ?thesis
      by (simp add: opens_of_def read_lines_stream)
  next
    case False
    with Cons.prems have t: "\<not> terminated ?st'" by (simp add: terminated_foldl)
    from Cons.IH [OF t] False Cons.prems show ?thesis
      by (simp add: opens_of_def read_lines_stream)
  qed
qed

lemma code_of_record:
  assumes "CHR '' '' \<notin> set a" and "- (2 ^ 63) \<le> N" and "N < 2 ^ 63"
  shows "ParseInt (Split (a @ '' '' @ dec_int N) (CHR '' '') ! 1) = N"
proof -
  have "Split (a @ CHR '' '' # dec_int N) (CHR '' '') = a # Split (dec_int N) (CHR '' '')"
    using assms(1) by (rule Split_append_sep)
  then show ?thesis
    using assms by (simp add: Split_no_sep dec_int_no_space ParseInt_dec_int)
qed

lemma exit_code_process_line:
  "exit_code (process_line st l) =
     (if HasPrefix l ''exit '' then ParseInt (Split l (CHR '' '') ! 1) else exit_code st)"
proof (cases "HasPrefix l ''exit ''")
  case True
  then have "parse_code l = Some (ParseInt (Split l (CHR '' '') ! 1))"
    using parse_code_prefix [of l "''exit''"] by simp
  with True exit_not_kill [of l] show ?thesis
    by (simp add: process_line_def)
next
  case False
  then show ?thesis
    by (simp add: process_line_def Let_def split: option.splits)
qed

lemma exit_code_foldl:
  "exit_code (foldl process_line st ls) =
     (if filter (\<lambda>l. HasPrefix l ''exit '') ls = [] then exit_code st
      else ParseInt (Split (last (filter (\<lambda>l. HasPrefix l ''exit '') ls)) (CHR '' '') ! 1))"
proof (induction ls rule: rev_induct)
  case Nil
  show ?case by simp
next
  case (snoc l ls)
  show ?case
  proof (cases "HasPrefix l ''exit ''")
    case True
    then show ?thesis
      by (simp add: exit_code_process_line)
  next
    case False
    with snoc show ?thesis
      by (simp add: exit_code_process_line)
  qed
qed

lemma WaitUntilDone_returns_iff:
  assumes "IsFIFO (fs w) status_fn"
  shows "WaitUntilDone w status_fn stdout_fn stderr_fn \<noteq> None \<longleftrightarrow>
           read_status initial_reader_state (status_opens w) \<noteq> None"
proof -
  from assms have "FileExists (fs w) status_fn"
    by (simp add: IsFIFO_def FileExists_def split: option.splits)
  with assms show ?thesis
    by (auto simp: WaitUntilDone_def Let_def split: option.splits sum.splits)
qed

lemma WaitUntilDone_delivers:
  assumes "status_opens w = opens_of stream"
    and "WaitUntilDone w status_fn stdout_fn stderr_fn = Some (err, Some r)"
  shows "SignalCodes r = signal_codes (foldl process_line initial_reader_state (consumed stream))"
    and "ExitCode r = exit_code (foldl process_line initial_reader_state (consumed stream))"
proof -
  have nt: "\<not> terminated initial_reader_state"
    by (simp add: initial_reader_state_def)
  from assms(2) obtain st where
      st: "read_status initial_reader_state (opens_of stream) = Some (Inr st)"
      and r: "SignalCodes r = signal_codes st" "ExitCode r = exit_code st"
    unfolding WaitUntilDone_def assms(1)
    by (auto simp: Let_def split: option.splits sum.splits if_splits)
  from st have "st = foldl process_line initial_reader_state (consumed stream)"
    by (simp add: read_status_stream [OF nt] split: if_splits)
  with r show "SignalCodes r = signal_codes (foldl process_line initial_reader_state (consumed stream))"
    and "ExitCode r = exit_code (foldl process_line initial_reader_state (consumed stream))"
    by simp_all
qed

text \<open>
  Claim C1. For every line stream on the status pipe, \<open>WaitUntilDone\<close> returns exactly when
  the stream holds a line read whole that starts with \<open>kill \<close>, \<open>exit \<close>, \<open>pid \<close> or
  \<open>err\<close> (the loop ends at the end of the open in which \<open>terminated\<close> was set, and
  without such a line the reader waits for ever). A line read whole sets \<open>terminated\<close>
  exactly when it is such a line; a line that starts with \<open>stop \<close> or \<open>cont \<close> leaves
  \<open>terminated\<close> as it is and appends its integer argument to \<open>signal_codes\<close>, the list
  that becomes the result's \<open>SignalCodes\<close>; a line with any other prefix changes nothing.
\<close>

theorem WaitUntilDone_terminal_records:
  assumes "IsFIFO (fs w) status_fn" and "status_opens w = opens_of stream"
  shows
    "(WaitUntilDone w status_fn stdout_fn stderr_fn \<noteq> None \<longleftrightarrow>
        (\<exists>ses \<in> set stream. \<exists>l \<in> set (complete ses). terminal_line l)) \<and>
     (\<forall>st l. terminated (process_line st l) \<longleftrightarrow> terminated st \<or> terminal_line l) \<and>
     (\<forall>st l. HasPrefix l ''stop '' \<or> HasPrefix l ''cont '' \<longrightarrow>
        process_line st l =
          st\<lparr>signal_codes := signal_codes st @ [ParseInt (Split l (CHR '' '') ! 1)]\<rparr>) \<and>
     (\<forall>st N. - (2 ^ 63) \<le> N \<and> N < 2 ^ 63 \<longrightarrow>
        process_line st (''stop '' @ dec_int N) = st\<lparr>signal_codes := signal_codes st @ [N]\<rparr> \<and>
        process_line st (''cont '' @ dec_int N) = st\<lparr>signal_codes := signal_codes st @ [N]\<rparr>) \<and>
     (\<forall>st l. \<not> terminal_line l \<and> \<not> HasPrefix l ''stop '' \<and> \<not> HasPrefix l ''cont '' \<longrightarrow>
        process_line st l = st) \<and>
     (\<forall>err r. WaitUntilDone w status_fn stdout_fn stderr_fn = Some (err, Some r) \<longrightarrow>
        SignalCodes r =
          signal_codes (foldl process_line initial_reader_state (consumed stream)))"
proof -
  have nt: "\<not> terminated initial_reader_state"
    by (simp add: initial_reader_state_def)
  have "WaitUntilDone w status_fn stdout_fn stderr_fn \<noteq> None \<longleftrightarrow>
      read_status initial_reader_state (opens_of stream) \<noteq> None"
    using WaitUntilDone_returns_iff [OF assms(1)] by (simp only: assms(2))
  also have "\<dots> \<longleftrightarrow> (\<exists>ses \<in> set stream. \<exists>l \<in> set (complete ses). terminal_line l)"
    by (simp add: read_status_stream [OF nt])
  finally have 1: "WaitUntilDone w status_fn stdout_fn stderr_fn \<noteq> None \<longleftrightarrow>
      (\<exists>ses \<in> set stream. \<exists>l \<in> set (complete ses). terminal_line l)" .
  have 2: "process_line st (''stop '' @ dec_int N) = st\<lparr>signal_codes := signal_codes st @ [N]\<rparr>"
    if "- (2 ^ 63) \<le> N" "N < 2 ^ 63" for st N
    using that code_of_record [of "''stop''" N]
    by (simp add: process_line_stop_cont HasPrefix_def)
  have 3: "process_line st (''cont '' @ dec_int N) = st\<lparr>signal_codes := signal_codes st @ [N]\<rparr>"
    if "- (2 ^ 63) \<le> N" "N < 2 ^ 63" for st N
    using that code_of_record [of "''cont''" N]
    by (simp add: process_line_stop_cont HasPrefix_def)
  from 1 2 3 show ?thesis
    using terminated_process_line process_line_stop_cont process_line_other
      WaitUntilDone_delivers(1) [OF assms(2)]
    by blast
qed

theorem WaitUntilDone_terminal_records_witness:
  "IsFIFO (fs (status_world [[(''stop 19'', False), (''junk'', False)],
                              [(''cont 18'', False), (''exit 0'', False)]]))
          ''/tmp/iexec042/status'' \<and>
   WaitUntilDone (status_world [[(''stop 19'', False), (''junk'', False)],
                                [(''cont 18'', False), (''exit 0'', False)]])
     ''/tmp/iexec042/status'' [] [] \<noteq> None \<and>
   WaitUntilDone (status_world [[(''stop 19'', False), (''junk'', False)]])
     ''/tmp/iexec042/status'' [] [] = None"
proof -
  let ?s = "[[(''stop 19'', False), (''junk'', False)], [(''cont 18'', False), (''exit 0'', False)]]"
  let ?t = "[[(''stop 19'', False), (''junk'', False)]]"
  have f: "IsFIFO (fs (status_world s)) ''/tmp/iexec042/status''" for s
    by (simp add: status_world_def calm_world_def IsFIFO_def)
  have o: "status_opens (status_world s) = opens_of s" for s
    by (simp add: status_world_def calm_world_def)
  have c1: "complete [(''stop 19'', False), (''junk'', False)] = [''stop 19'', ''junk'']"
    and c2: "complete [(''cont 18'', False), (''exit 0'', False)] = [''cont 18'', ''exit 0'']"
    by (simp_all add: complete_def)
  have a: "\<exists>ses \<in> set ?s. \<exists>l \<in> set (complete ses). terminal_line l"
    by (simp add: c1 c2 terminal_line_def HasPrefix_def)
  have b: "\<not> (\<exists>ses \<in> set ?t. \<exists>l \<in> set (complete ses). terminal_line l)"
    by (simp add: c1 terminal_line_def HasPrefix_def)
  have "WaitUntilDone (status_world ?s) ''/tmp/iexec042/status'' [] [] \<noteq> None \<longleftrightarrow>
      (\<exists>ses \<in> set ?s. \<exists>l \<in> set (complete ses). terminal_line l)"
    using WaitUntilDone_terminal_records [OF f o, of ?s "[]" "[]"] by (rule conjunct1)
  with a have 1: "WaitUntilDone (status_world ?s) ''/tmp/iexec042/status'' [] [] \<noteq> None"
    by blast
  have "WaitUntilDone (status_world ?t) ''/tmp/iexec042/status'' [] [] \<noteq> None \<longleftrightarrow>
      (\<exists>ses \<in> set ?t. \<exists>l \<in> set (complete ses). terminal_line l)"
    using WaitUntilDone_terminal_records [OF f o, of ?t "[]" "[]"] by (rule conjunct1)
  with b have 2: "WaitUntilDone (status_world ?t) ''/tmp/iexec042/status'' [] [] = None"
    by blast
  from f [of ?s] 1 2 show ?thesis by blast
qed

text \<open>
  Claim C2, as stated, fails: the reader does not stop at the terminal record but reads on
  to the end of that open of the pipe, and every \<open>exit \<close> line it reads sets the exit
  code. Here the first and the last terminal record are both \<open>kill 9\<close>, and the exit code
  of the result is 3, not \<open>-1\<close>.
\<close>

theorem WaitUntilDone_exit_code_counterexample:
  "WaitUntilDone (status_world [[(''kill 9'', False), (''exit 3'', False), (''kill 9'', False)]])
     ''/tmp/iexec042/status'' [] [] =
   Some (None, Some \<lparr>Out = [], Err = [], SignalCodes = [9, 9], ExitCode = 3, Pid = 0\<rparr>)"
  by (simp add: WaitUntilDone_def status_world_def calm_world_def IsFIFO_def FileExists_def
      opens_of_def initial_reader_state_def process_line_def HasPrefix_def parse_code_def
      ParseInt_def ParseUint_def is_digit_def digit_val_def maxUint64_def)

text \<open>
  Claim C2, amended. In the result handed to the completion handler, the exit code is
  \<open>-1\<close> when no \<open>exit \<close> line was read whole before the reader stopped, and it is N
  when the last \<open>exit \<close> line read was \<open>exit N\<close> (N a 64-bit integer in decimal). So the
  claim holds when the open that ends the reader holds one terminal record only.
\<close>

theorem WaitUntilDone_exit_code:
  assumes "status_opens w = opens_of stream"
    and "WaitUntilDone w status_fn stdout_fn stderr_fn = Some (err, Some r)"
  shows
    "((\<forall>l \<in> set (consumed stream). \<not> HasPrefix l ''exit '') \<longrightarrow> ExitCode r = - 1) \<and>
     (\<forall>before N after.
        consumed stream = before @ [''exit '' @ dec_int N] @ after \<and>
        (\<forall>l \<in> set after. \<not> HasPrefix l ''exit '') \<and> - (2 ^ 63) \<le> N \<and> N < 2 ^ 63 \<longrightarrow>
        ExitCode r = N)"
proof -
  let ?exits = "filter (\<lambda>l. HasPrefix l ''exit '') (consumed stream)"
  have e: "ExitCode r =
      (if ?exits = [] then - 1 else ParseInt (Split (last ?exits) (CHR '' '') ! 1))"
    using WaitUntilDone_delivers(2) [OF assms]
    by (simp add: exit_code_foldl initial_reader_state_def)
  have a: "ExitCode r = - 1" if "\<forall>l \<in> set (consumed stream). \<not> HasPrefix l ''exit ''"
  proof -
    from that have "?exits = []" by (simp add: filter_empty_conv)
    with e show ?thesis by simp
  qed
  have b: "ExitCode r = N"
    if c: "consumed stream = before @ [''exit '' @ dec_int N] @ after"
      and n: "\<forall>l \<in> set after. \<not> HasPrefix l ''exit ''"
      and r: "- (2 ^ 63) \<le> N" "N < 2 ^ 63"
    for before N after
  proof -
    have "HasPrefix (''exit '' @ dec_int N) ''exit ''"
      by (simp add: HasPrefix_def)
    moreover from n have "filter (\<lambda>l. HasPrefix l ''exit '') after = []"
      by (simp add: filter_empty_conv)
    ultimately have "?exits \<noteq> []" "last ?exits = ''exit '' @ dec_int N"
      by (simp_all add: c)
    with e have "ExitCode r = ParseInt (Split (''exit '' @ dec_int N) (CHR '' '') ! 1)"
      by simp
    with r show ?thesis
      using code_of_record [of "''exit''" N] by simp
  qed
  from a b show ?thesis by blast
qed

theorem WaitUntilDone_exit_code_witness:
  "status_opens (status_world [[(''pid 4321'', False), (''exit 7'', False)]]) =
     opens_of [[(''pid 4321'', False), (''exit 7'', False)]] \<and>
   WaitUntilDone (status_world [[(''pid 4321'', False), (''exit 7'', False)]])
     ''/tmp/iexec042/status'' [] [] =
     Some (None, Some \<lparr>Out = [], Err = [], SignalCodes = [], ExitCode = 7, Pid = 4321\<rparr>) \<and>
   consumed [[(''pid 4321'', False), (''exit 7'', False)]] =
     [''pid 4321''] @ [''exit '' @ dec_int 7] @ [] \<and>
   WaitUntilDone (status_world [[(''kill 9'', False)]]) ''/tmp/iexec042/status'' [] [] =
     Some (None, Some \<lparr>Out = [], Err = [], SignalCodes = [9], ExitCode = - 1, Pid = 0\<rparr>) \<and>
   consumed [[(''kill 9'', False)]] = [''kill 9''] \<and> \<not> HasPrefix ''kill 9'' ''exit ''"
proof -
  let ?s = "[[(''pid 4321'', False), (''exit 7'', False)]]"
  let ?t = "[[(''kill 9'', False)]]"
  have o: "status_opens (status_world s) = opens_of s" for s
    by (simp add: status_world_def calm_world_def)
  obtain err r where w: "WaitUntilDone (status_world ?s) ''/tmp/iexec042/status'' [] [] =
      Some (err, Some r)" and r: "err = None" "Out r = []" "Err r = []" "SignalCodes r = []"
      "Pid r = 4321"
    by (simp add: WaitUntilDone_def status_world_def calm_world_def IsFIFO_def FileExists_def
        opens_of_def initial_reader_state_def process_line_def HasPrefix_def parse_code_def
        ParseInt_def ParseUint_def is_digit_def digit_val_def maxUint64_def)
  have d: "dec_int 7 = ''7''"
    by code_simp
  have c: "consumed ?s = [''pid 4321''] @ [''exit '' @ dec_int 7] @ []"
    by (simp add: complete_def terminal_line_def HasPrefix_def d)
  have "consumed ?s = [''pid 4321''] @ [''exit '' @ dec_int 7] @ [] \<and>
      (\<forall>l \<in> set []. \<not> HasPrefix l ''exit '') \<and> - (2 ^ 63) \<le> (7::int) \<and> (7::int) < 2 ^ 63 \<longrightarrow>
      ExitCode r = 7"
    using WaitUntilDone_exit_code [OF o w, THEN conjunct2] by blast
  with c have "ExitCode r = 7"
    by simp
  with w r have 1: "WaitUntilDone (status_world ?s) ''/tmp/iexec042/status'' [] [] =
      Some (None, Some \<lparr>Out = [], Err = [], SignalCodes = [], ExitCode = 7, Pid = 4321\<rparr>)"
    by simp
  obtain err' r' where w': "WaitUntilDone (status_world ?t) ''/tmp/iexec042/status'' [] [] =
      Some (err', Some r')" and r': "err' = None" "Out r' = []" "Err r' = []"
      "SignalCodes r' = [9]" "Pid r' = 0"
    by (simp add: WaitUntilDone_def status_world_def calm_world_def IsFIFO_def FileExists_def
        opens_of_def initial_reader_state_def process_line_def HasPrefix_def parse_code_def
        ParseInt_def ParseUint_def is_digit_def digit_val_def maxUint64_def)
  have n: "\<forall>l \<in> set (consumed ?t). \<not> HasPrefix l ''exit ''"
    by (simp add: complete_def terminal_line_def HasPrefix_def)
  have "ExitCode r' = - 1"
    using WaitUntilDone_exit_code [OF o w'] n by blast
  with w' r' have 2: "WaitUntilDone (status_world ?t) ''/tmp/iexec042/status'' [] [] =
      Some (None, Some \<lparr>Out = [], Err = [], SignalCodes = [9], ExitCode = - 1, Pid = 0\<rparr>)"
    by simp
  have k: "consumed ?t = [''kill 9'']" "\<not> HasPrefix ''kill 9'' ''exit ''"
    by (simp_all add: complete_def terminal_line_def HasPrefix_def)
  from o [of ?s] 1 c 2 k show ?thesis by blast
qed

section \<open>Properties of the client write path\<close>

lemma Fprintf_ok:
  assumes "set (pending p) \<subseteq> {None}"
  shows "fst (Fprintf p t) = None"
    and "attempts (snd (Fprintf p t)) = attempts p @ [(t, None)]"
    and "set (pending (snd (Fprintf p t))) \<subseteq> {None}"
  using assms by (auto simp: Fprintf_def split: list.splits)

lemma Fprintf_attempts: "map fst (attempts (snd (Fprintf p t))) = map fst (attempts p) @ [t]"
  by (simp add: Fprintf_def split: list.splits)

lemma write_args_ok:
  assumes "set (pending p) \<subseteq> {None}"
  shows "fst (write_args args p) = None \<and>
         attempts (snd (write_args args p)) = attempts p @ map (\<lambda>a. (a @ newline, None)) args \<and>
         set (pending (snd (write_args args p))) \<subseteq> {None}"
  using assms
proof (induction args arbitrary: p)
  case Nil
  then show ?case by simp
next
  case (Cons a args)
  let ?q = "snd (Fprintf p (a @ newline))"
  note f = Fprintf_ok [OF Cons.prems, of "a @ newline"]
  have "write_args (a # args) p = write_args args ?q"
    using f(1) by (simp add: case_prod_beta)
  with Cons.IH [OF f(3)] f(2) show ?case by (simp del: write_args.simps)
qed

lemma write_args_attempts:
  "\<exists>n \<le> length args. (args \<noteq> [] \<longrightarrow> 0 < n) \<and>
     map fst (attempts (snd (write_args args p))) =
       map fst (attempts p) @ map (\<lambda>a. a @ newline) (take n args) @
         (if fst (write_args args p) = None then [] else [sentinel_line])"
proof (induction args arbitrary: p)
  case Nil
  show ?case by simp
next
  case (Cons a args)
  let ?q = "snd (Fprintf p (a @ newline))"
  show ?case
  proof (cases "fst (Fprintf p (a @ newline)) = None")
    case True
    then have w: "write_args (a # args) p = write_args args ?q"
      by (simp add: case_prod_beta)
    from Cons.IH [of ?q] obtain n where n: "n \<le> length args"
      "map fst (attempts (snd (write_args args ?q))) =
         map fst (attempts ?q) @ map (\<lambda>a. a @ newline) (take n args) @
           (if fst (write_args args ?q) = None then [] else [sentinel_line])"
      by blast
    have "Suc n \<le> length (a # args)" using n(1) by simp
    moreover have "map fst (attempts (snd (write_args (a # args) p))) =
        map fst (attempts p) @ map (\<lambda>a. a @ newline) (take (Suc n) (a # args)) @
          (if fst (write_args (a # args) p) = None then [] else [sentinel_line])"
      by (simp add: w n(2) Fprintf_attempts del: write_args.simps)
    ultimately show ?thesis by (intro exI [of _ "Suc n"]) simp
  next
    case False
    then have "write_args (a # args) p =
        (Some (fst (Fprintf ?q sentinel_line)), snd (Fprintf ?q sentinel_line))"
      by (simp add: case_prod_beta)
    then have "map fst (attempts (snd (write_args (a # args) p))) =
        map fst (attempts p) @ map (\<lambda>a. a @ newline) (take (Suc 0) (a # args)) @
          (if fst (write_args (a # args) p) = None then [] else [sentinel_line])"
      by (simp add: Fprintf_attempts del: write_args.simps)
    moreover have "Suc 0 \<le> length (a # args)" by simp
    ultimately show ?thesis by (intro exI [of _ "Suc 0"]) simp
  qed
qed

lemma write_frame_control_ok:
  assumes "control_verb arg0" and "set (pending p) \<subseteq> {None}"
  shows "fst (write_frame (arg0 # others) callback sf p) = FrameWritten"
    and "attempts (snd (write_frame (arg0 # others) callback sf p)) =
           attempts p @ map (\<lambda>a. (a @ newline, None)) (arg0 # others) @ [(sentinel_line, None)]"
proof -
  let ?args = "arg0 # others"
  obtain r q where q: "write_args ?args p = (r, q)"
    by (cases "write_args ?args p")
  from write_args_ok [OF assms(2), of ?args] q
  have a: "r = None" "attempts q = attempts p @ map (\<lambda>a. (a @ newline, None)) ?args"
      "set (pending q) \<subseteq> {None}"
    by simp_all
  have c: "(arg0 \<noteq> ''@restart'' \<and> arg0 \<noteq> ''@exit'' \<and> arg0 \<noteq> ''@alive'') = False"
    using assms(1) by (auto simp: control_verb_def)
  have w: "write_frame ?args callback sf p = (FrameWritten, snd (Fprintf q sentinel_line))"
    unfolding write_frame_def using a(1)
    by (simp add: c q case_prod_beta del: write_args.simps)
  show "fst (write_frame ?args callback sf p) = FrameWritten"
    by (simp add: w del: write_args.simps)
  from Fprintf_ok(2) [OF a(3), of sentinel_line] a(2)
  show "attempts (snd (write_frame ?args callback sf p)) =
      attempts p @ map (\<lambda>a. (a @ newline, None)) ?args @ [(sentinel_line, None)]"
    by (simp add: w del: write_args.simps)
qed

lemma write_frame_control_attempts:
  assumes "control_verb arg0"
  shows "\<exists>n \<le> length (arg0 # others). 0 < n \<and>
           map fst (attempts (snd (write_frame (arg0 # others) callback sf p))) =
             map fst (attempts p) @ map (\<lambda>a. a @ newline) (take n (arg0 # others)) @ [sentinel_line]"
proof -
  let ?args = "arg0 # others"
  obtain r q where q: "write_args ?args p = (r, q)"
    by (cases "write_args ?args p")
  have c: "(arg0 \<noteq> ''@restart'' \<and> arg0 \<noteq> ''@exit'' \<and> arg0 \<noteq> ''@alive'') = False"
    using assms(1) by (auto simp: control_verb_def)
  from write_args_attempts [of ?args p] q obtain n where n: "n \<le> length ?args" and n0: "0 < n"
    and na: "map fst (attempts q) =
         map fst (attempts p) @ map (\<lambda>a. a @ newline) (take n ?args) @
           (if r = None then [] else [sentinel_line])"
    by auto
  show ?thesis
  proof (cases r)
    case None
    have "write_frame ?args callback sf p = (FrameWritten, snd (Fprintf q sentinel_line))"
      unfolding write_frame_def using None
      by (simp add: c q case_prod_beta del: write_args.simps)
    then have "map fst (attempts (snd (write_frame ?args callback sf p))) =
        map fst (attempts p) @ map (\<lambda>a. a @ newline) (take n ?args) @ [sentinel_line]"
      using na None by (simp add: Fprintf_attempts del: write_args.simps)
    with n n0 show ?thesis by blast
  next
    case (Some err)
    have "write_frame ?args callback sf p = (FrameReturns err, q)"
      unfolding write_frame_def using Some
      by (simp add: c q del: write_args.simps)
    then have "map fst (attempts (snd (write_frame ?args callback sf p))) =
        map fst (attempts p) @ map (\<lambda>a. a @ newline) (take n ?args) @ [sentinel_line]"
      using na Some by (simp del: write_args.simps)
    with n n0 show ?thesis by blast
  qed
qed


lemma Exec_frame:
  assumes "prepare_status_files this w callback = Inr (sf, fs')"
    and "IsFIFO fs' (Filename this)"
    and "acquire_lock (ClientNonBlocking this) (lock_attempts w) = Acquired"
  shows "written (ExecuteDaemonOnServerWithCallback this w args callback) =
           attempts (snd (write_frame args callback sf \<lparr>attempts = [], pending = write_errors w\<rparr>))"
proof -
  from assms(2) have "FileExists fs' (Filename this)"
    by (simp add: IsFIFO_def FileExists_def split: option.splits)
  with assms show ?thesis
    unfolding ExecuteDaemonOnServerWithCallback_def
    by (simp split: prod.splits frame_outcome.splits option.splits)
qed

lemma Exec_no_frame:
  "written (ExecuteDaemonOnServerWithCallback this w args callback) = [] \<or>
   (\<exists>sf. written (ExecuteDaemonOnServerWithCallback this w args callback) =
      attempts (snd (write_frame args callback sf \<lparr>attempts = [], pending = write_errors w\<rparr>)))"
proof (cases "prepare_status_files this w callback")
  case (Inl err)
  then show ?thesis
    by (simp add: ExecuteDaemonOnServerWithCallback_def)
next
  case (Inr x)
  then obtain sf fs' where p: "prepare_status_files this w callback = Inr (sf, fs')"
    by (cases x) simp
  show ?thesis
  proof (cases "IsFIFO fs' (Filename this)")
    case False
    with p show ?thesis
      by (simp add: ExecuteDaemonOnServerWithCallback_def)
  next
    case fifo: True
    show ?thesis
    proof (cases "acquire_lock (ClientNonBlocking this) (lock_attempts w)")
      case Acquired
      from Exec_frame [OF p fifo Acquired] show ?thesis by blast
    next
      case (LockFails err)
      with p show ?thesis
        by (simp add: ExecuteDaemonOnServerWithCallback_def)
    next
      case Waiting
      with p show ?thesis
        by (simp add: ExecuteDaemonOnServerWithCallback_def)
    qed
  qed
qed

lemma read_lines_error: "read_lines st events = Inl err \<Longrightarrow> \<exists>e. err = OsError e"
  by (induction st events rule: read_lines.induct) auto

lemma read_status_error: "read_status st opens = Some (Inl err) \<Longrightarrow> \<exists>e. err = OsError e"
  by (induction st opens rule: read_status.induct)
     (auto split: if_splits status_open.splits sum.splits dest: read_lines_error)

lemma WaitUntilDone_not_contended:
  "WaitUntilDone w status_fn stdout_fn stderr_fn \<noteq> Some (Some LockContended, r)"
  by (auto simp: WaitUntilDone_def Let_def split: option.splits sum.splits if_splits
      dest: read_status_error)

lemma acquire_lock_blocking: "acquire_lock False tries \<noteq> LockFails LockContended"
proof (induction tries)
  case Nil
  show ?case by simp
next
  case (Cons t tries)
  show ?case
  proof (cases t)
    case (OpenFailed e)
    then show ?thesis by simp
  next
    case (Flock r)
    with Cons show ?thesis by (cases r) simp_all
  qed
qed

lemma acquire_lock_retries:
  "acquire_lock False (replicate n (Flock EWOULDBLOCK) @ Flock Locked # rest) = Acquired"
  by (induction n) simp_all

lemma prepare_not_contended:
  "prepare_status_files this w callback \<noteq> Inl LockContended"
  by (simp add: prepare_status_files_def Let_def split: option.splits sum.splits)

lemma Exec_not_contended:
  assumes "\<not> ClientNonBlocking this"
  shows "outcome (ExecuteDaemonOnServerWithCallback this w args callback) \<noteq>
           Returns (Some LockContended)"
proof (cases "prepare_status_files this w callback")
  case (Inl err)
  with prepare_not_contended [of this w callback] show ?thesis
    by (auto simp: ExecuteDaemonOnServerWithCallback_def)
next
  case (Inr x)
  then obtain sf fs' where p: "prepare_status_files this w callback = Inr (sf, fs')"
    by (cases x) simp
  from assms have a: "acquire_lock (ClientNonBlocking this) (lock_attempts w) \<noteq>
      LockFails LockContended"
    by (simp add: acquire_lock_blocking)
  show ?thesis
    unfolding ExecuteDaemonOnServerWithCallback_def
    using p a WaitUntilDone_not_contended [of "w\<lparr>fs := fs'\<rparr>"]
    by (auto split: lock_outcome.splits prod.splits frame_outcome.splits option.splits)
qed

lemma WaitUntilDone_lock_attempts:
  "WaitUntilDone (w\<lparr>lock_attempts := tries, fs := fs'\<rparr>) = WaitUntilDone (w\<lparr>fs := fs'\<rparr>)"
  by (intro ext) (simp add: WaitUntilDone_def Let_def split: option.splits sum.splits)

lemma prepare_lock_attempts:
  "prepare_status_files this (w\<lparr>lock_attempts := tries\<rparr>) callback =
   prepare_status_files this w callback"
  by (simp add: prepare_status_files_def Let_def split: option.splits sum.splits)

lemma Exec_retry:
  assumes "\<not> ClientNonBlocking this"
  shows "ExecuteDaemonOnServerWithCallback this (w\<lparr>lock_attempts := Flock EWOULDBLOCK # rest\<rparr>)
           args callback =
         ExecuteDaemonOnServerWithCallback this (w\<lparr>lock_attempts := rest\<rparr>) args callback"
  using assms
  by (simp add: ExecuteDaemonOnServerWithCallback_def prepare_lock_attempts
      WaitUntilDone_lock_attempts
      cong: sum.case_cong prod.case_cong lock_outcome.case_cong frame_outcome.case_cong
        option.case_cong if_cong)

lemma Exec_contended:
  assumes "ClientNonBlocking this"
    and "prepare_status_files this w callback = Inr (sf, fs')"
    and "IsFIFO fs' (Filename this)"
    and "lock_attempts w = Flock EWOULDBLOCK # rest"
  shows "ExecuteDaemonOnServerWithCallback this w args callback =
           \<lparr>outcome = Returns (Some LockContended), written = [], delivered = None\<rparr>"
proof -
  from assms(3) have "FileExists fs' (Filename this)"
    by (simp add: IsFIFO_def FileExists_def split: option.splits)
  with assms show ?thesis
    by (simp add: ExecuteDaemonOnServerWithCallback_def)
qed

text \<open>
  Claim C3, as stated, fails: the client writes every token of \<open>args\<close>, so a control
  verb that is followed by more tokens gives a frame of more than one token line.
\<close>

theorem control_verb_frame_counterexample:
  "map fst (written (ExecuteDaemonOnServerWithCallback root_client pipe_world
      [''@exit'', ''now''] None)) =
     [''@exit'' @ newline, ''now'' @ newline, sentinel_line] \<and>
   map fst (written (ExecuteDaemonOnServerWithCallback root_client pipe_world
      [''@exit'', ''now''] None)) \<noteq>
     [''@exit'' @ newline, sentinel_line]"
  by (simp add: ExecuteDaemonOnServerWithCallback_def prepare_status_files_def root_client_def
      NewFIFOCommand_def pipe_world_def calm_world_def FileExists_def IsFIFO_def
      write_frame_def Fprintf_def)

text \<open>
  Claim C3, amended. When the first token of \<open>args\<close> is \<open>@exit\<close>, \<open>@restart\<close> or
  \<open>@alive\<close>, then for every callback and every world the client writes no \<open>iexec\<close>
  header and no \<open>-s\<close>, \<open>-o\<close> or \<open>-e\<close> lines of its own: either it writes nothing
  (it failed before the frame), or its writes are the token lines of \<open>args\<close> in order, up
  to the first write that fails, followed by the sentinel line. When the frame is reached
  and no write fails, the writes are exactly the token lines of \<open>args\<close> followed by the
  sentinel: the single verb line and the sentinel when \<open>args\<close> holds the verb only.
\<close>

theorem control_verb_frame:
  assumes "control_verb arg0"
  shows
    "(written (ExecuteDaemonOnServerWithCallback this w (arg0 # others) callback) = [] \<or>
      (\<exists>n \<le> length (arg0 # others). 0 < n \<and>
         map fst (written (ExecuteDaemonOnServerWithCallback this w (arg0 # others) callback)) =
           map (\<lambda>a. a @ newline) (take n (arg0 # others)) @ [sentinel_line])) \<and>
     (\<forall>sf fs'.
        prepare_status_files this w callback = Inr (sf, fs') \<and> IsFIFO fs' (Filename this) \<and>
        acquire_lock (ClientNonBlocking this) (lock_attempts w) = Acquired \<and>
        set (write_errors w) \<subseteq> {None} \<longrightarrow>
        written (ExecuteDaemonOnServerWithCallback this w (arg0 # others) callback) =
          map (\<lambda>a. (a @ newline, None)) (arg0 # others) @ [(sentinel_line, None)])"
proof -
  let ?r = "ExecuteDaemonOnServerWithCallback this w (arg0 # others) callback"
  let ?p = "\<lparr>attempts = [], pending = write_errors w\<rparr>"
  have 1: "written ?r = [] \<or>
      (\<exists>n \<le> length (arg0 # others). 0 < n \<and>
         map fst (written ?r) = map (\<lambda>a. a @ newline) (take n (arg0 # others)) @ [sentinel_line])"
  proof (rule disjCI)
    assume "\<not> (\<exists>n \<le> length (arg0 # others). 0 < n \<and>
         map fst (written ?r) = map (\<lambda>a. a @ newline) (take n (arg0 # others)) @ [sentinel_line])"
    moreover have "\<exists>n \<le> length (arg0 # others). 0 < n \<and>
         map fst (written ?r) = map (\<lambda>a. a @ newline) (take n (arg0 # others)) @ [sentinel_line]"
      if "written ?r = attempts (snd (write_frame (arg0 # others) callback sf ?p))" for sf
      using write_frame_control_attempts [OF assms, of others callback sf ?p] that by simp
    ultimately show "written ?r = []"
      using Exec_no_frame [of this w "arg0 # others" callback] by blast
  qed
  have 2: "written ?r = map (\<lambda>a. (a @ newline, None)) (arg0 # others) @ [(sentinel_line, None)]"
    if "prepare_status_files this w callback = Inr (sf, fs')" "IsFIFO fs' (Filename this)"
      "acquire_lock (ClientNonBlocking this) (lock_attempts w) = Acquired"
      "set (write_errors w) \<subseteq> {None}" for sf fs'
  proof -
    from that(4) have "set (pending ?p) \<subseteq> {None}" by simp
    from write_frame_control_ok(2) [OF assms this, of others callback sf]
    show ?thesis
      by (simp add: Exec_frame [OF that(1-3)])
  qed
  from 1 2 show ?thesis by blast
qed

theorem control_verb_frame_witness:
  "control_verb ''@alive'' \<and>
   prepare_status_files root_client pipe_world None =
     Inr (\<lparr>server_tmp = [], status_file = [], stdout_file = [], stderr_file = []\<rparr>,
          fs pipe_world) \<and>
   IsFIFO (fs pipe_world) (Filename root_client) \<and>
   acquire_lock (ClientNonBlocking root_client) (lock_attempts pipe_world) = Acquired \<and>
   set (write_errors pipe_world) \<subseteq> {None} \<and>
   written (ExecuteDaemonOnServerWithCallback root_client pipe_world [''@alive''] None) =
     [(''@alive'' @ newline, None), (sentinel_line, None)]"
proof -
  have v: "control_verb ''@alive''"
    by (simp add: control_verb_def)
  have h: "prepare_status_files root_client pipe_world None =
       Inr (\<lparr>server_tmp = [], status_file = [], stdout_file = [], stderr_file = []\<rparr>,
            fs pipe_world) \<and>
     IsFIFO (fs pipe_world) (Filename root_client) \<and>
     acquire_lock (ClientNonBlocking root_client) (lock_attempts pipe_world) = Acquired \<and>
     set (write_errors pipe_world) \<subseteq> {None}"
    by (simp add: prepare_status_files_def root_client_def NewFIFOCommand_def pipe_world_def
        calm_world_def IsFIFO_def)
  from control_verb_frame [OF v, where this = root_client and w = pipe_world and others = "[]"
      and callback = None, THEN conjunct2] h
  have "written (ExecuteDaemonOnServerWithCallback root_client pipe_world [''@alive''] None) =
      map (\<lambda>a. (a @ newline, None)) [''@alive''] @ [(sentinel_line, None)]"
    by blast
  with v h show ?thesis by simp
qed

text \<open>
  Claim C4. With \<open>ClientNonBlocking\<close> set, when the first \<open>flock\<close> on the command pipe
  answers \<open>EWOULDBLOCK\<close> the client returns the lock-contention error and has written
  nothing. With \<open>ClientNonBlocking\<close> not set the client never returns that error: an
  \<open>EWOULDBLOCK\<close> answer sends it back to \<open>try_again\<close>, so the call behaves as if the
  answer had not been given, and after any number of such answers a successful \<open>flock\<close>
  acquires the lock.
\<close>

theorem client_lock_contention:
  "(ClientNonBlocking this \<longrightarrow>
      (\<forall>sf fs' rest.
         prepare_status_files this w callback = Inr (sf, fs') \<and> IsFIFO fs' (Filename this) \<and>
         lock_attempts w = Flock EWOULDBLOCK # rest \<longrightarrow>
         outcome (ExecuteDaemonOnServerWithCallback this w args callback) =
           Returns (Some LockContended) \<and>
         written (ExecuteDaemonOnServerWithCallback this w args callback) = [])) \<and>
   (\<not> ClientNonBlocking this \<longrightarrow>
      outcome (ExecuteDaemonOnServerWithCallback this w args callback) \<noteq>
        Returns (Some LockContended) \<and>
      (\<forall>rest.
         ExecuteDaemonOnServerWithCallback this (w\<lparr>lock_attempts := Flock EWOULDBLOCK # rest\<rparr>)
           args callback =
         ExecuteDaemonOnServerWithCallback this (w\<lparr>lock_attempts := rest\<rparr>) args callback) \<and>
      (\<forall>n rest.
         acquire_lock (ClientNonBlocking this)
           (replicate n (Flock EWOULDBLOCK) @ Flock Locked # rest) = Acquired))"
proof -
  have 1: "outcome (ExecuteDaemonOnServerWithCallback this w args callback) =
        Returns (Some LockContended) \<and>
      written (ExecuteDaemonOnServerWithCallback this w args callback) = []"
    if "ClientNonBlocking this" "prepare_status_files this w callback = Inr (sf, fs')"
      "IsFIFO fs' (Filename this)" "lock_attempts w = Flock EWOULDBLOCK # rest" for sf fs' rest
    by (simp add: Exec_contended [OF that])
  have 2: "acquire_lock (ClientNonBlocking this)
      (replicate n (Flock EWOULDBLOCK) @ Flock Locked # rest) = Acquired"
    if "\<not> ClientNonBlocking this" for n rest
    using that by (simp add: acquire_lock_retries)
  from 1 2 show ?thesis
    using Exec_not_contended [of this w args callback] Exec_retry [where this = this and w = w and args = args and callback = callback]
    by blast
qed

theorem client_lock_contention_witness:
  "ClientNonBlocking (root_client\<lparr>ClientNonBlocking := True\<rparr>) \<and>
   IsFIFO (fs pipe_world) (Filename (root_client\<lparr>ClientNonBlocking := True\<rparr>)) \<and>
   outcome (ExecuteDaemonOnServerWithCallback (root_client\<lparr>ClientNonBlocking := True\<rparr>)
      (pipe_world\<lparr>lock_attempts := [Flock EWOULDBLOCK, Flock Locked]\<rparr>) [''ls''] None) =
     Returns (Some LockContended) \<and>
   written (ExecuteDaemonOnServerWithCallback (root_client\<lparr>ClientNonBlocking := True\<rparr>)
      (pipe_world\<lparr>lock_attempts := [Flock EWOULDBLOCK, Flock Locked]\<rparr>) [''ls''] None) = [] \<and>
   \<not> ClientNonBlocking root_client \<and>
   outcome (ExecuteDaemonOnServerWithCallback root_client
      (pipe_world\<lparr>lock_attempts := [Flock EWOULDBLOCK, Flock Locked]\<rparr>) [''ls''] None) \<noteq>
     Returns (Some LockContended) \<and>
   ExecuteDaemonOnServerWithCallback root_client
      (pipe_world\<lparr>lock_attempts := [Flock EWOULDBLOCK, Flock Locked]\<rparr>) [''ls''] None =
   ExecuteDaemonOnServerWithCallback root_client
      (pipe_world\<lparr>lock_attempts := [Flock Locked]\<rparr>) [''ls''] None"
proof -
  let ?nb = "root_client\<lparr>ClientNonBlocking := True\<rparr>"
  let ?w = "pipe_world\<lparr>lock_attempts := [Flock EWOULDBLOCK, Flock Locked]\<rparr>"
  have nb: "ClientNonBlocking ?nb" by simp
  have b: "\<not> ClientNonBlocking root_client"
    by (simp add: root_client_def NewFIFOCommand_def)
  have h: "prepare_status_files ?nb ?w None =
       Inr (\<lparr>server_tmp = [], status_file = [], stdout_file = [], stderr_file = []\<rparr>,
            fs pipe_world) \<and>
     IsFIFO (fs pipe_world) (Filename ?nb) \<and>
     lock_attempts ?w = Flock EWOULDBLOCK # [Flock Locked]"
    by (simp add: prepare_status_files_def root_client_def NewFIFOCommand_def pipe_world_def
        calm_world_def IsFIFO_def)
  from client_lock_contention [where this = ?nb and w = ?w and args = "[''ls'']" and callback = None,
      THEN conjunct1] nb h
  have 1: "outcome (ExecuteDaemonOnServerWithCallback ?nb ?w [''ls''] None) =
        Returns (Some LockContended) \<and>
      written (ExecuteDaemonOnServerWithCallback ?nb ?w [''ls''] None) = []"
    by blast
  from client_lock_contention [where this = root_client and w = pipe_world and args = "[''ls'']"
      and callback = None, THEN conjunct2] b
  have 2: "ExecuteDaemonOnServerWithCallback root_client
        (pipe_world\<lparr>lock_attempts := Flock EWOULDBLOCK # [Flock Locked]\<rparr>) [''ls''] None =
      ExecuteDaemonOnServerWithCallback root_client
        (pipe_world\<lparr>lock_attempts := [Flock Locked]\<rparr>) [''ls''] None"
    by blast
  from client_lock_contention [where this = root_client and w = ?w and args = "[''ls'']"
      and callback = None, THEN conjunct2] b
  have 3: "outcome (ExecuteDaemonOnServerWithCallback root_client ?w [''ls''] None) \<noteq>
      Returns (Some LockContended)"
    by blast
  from nb b h 1 2 3 show ?thesis by simp
qed

text \<open>The loop over \<open>args\<close> ends its writes with the sentinel when a token write failed.\<close>

lemma write_args_failure_ends_with_sentinel:
  assumes "fst (write_args args p) \<noteq> None"
  shows "last (map fst (attempts (snd (write_args args p)))) = sentinel_line"
  using write_args_attempts [of args p] assms by auto

text \<open>
  Claim C5 says that after any failed write of the frame, the header lines included, the
  client still attempts the sentinel before it returns the error. The loop over \<open>args\<close>
  does so; the header does not: with no callback, when the write of \<open>iexec\<close> fails the
  client returns that error at \<open>if err != nil { return err }\<close> and the sentinel is never
  attempted. The log of writes below holds the failed \<open>iexec\<close> line only.
\<close>

theorem header_write_failure_no_sentinel:
  "ExecuteDaemonOnServerWithCallback root_client (pipe_world\<lparr>write_errors := [Some 32]\<rparr>)
     [''ls''] None =
   \<lparr>outcome = Returns (Some (OsError 32)), written = [(''iexec'' @ newline, Some 32)],
    delivered = None\<rparr>"
  by (simp add: ExecuteDaemonOnServerWithCallback_def prepare_status_files_def root_client_def
      NewFIFOCommand_def pipe_world_def calm_world_def FileExists_def IsFIFO_def
      write_frame_def write_header_def Fprintf_def)

section \<open>Properties of container.go\<close>

lemma c1_paths:
  "rootfs container_c1 = ''/web/c1/rootfs''"
  "meta_dir container_c1 = ''/web/c1/meta''"
  "private_dir container_c1 = ''/web/c1/private-data''"
  "config_pathname container_c1 = ''/web/c1/config''"
  "fstab_pathname container_c1 = ''/web/c1/fstab''"
  "Container.name container_c1 = ''c1''"
  by code_simp+

lemma c1_joins:
  "Join [''/web/c1/rootfs'', ''/etc''] = ''/web/c1/rootfs/etc''"
  "Join [''/cgroup/lxc'', ''c1''] = ''/cgroup/lxc/c1''"
  "Join [''/web/c1/rootfs'', ''/home/bob''] = ''/web/c1/rootfs/home/bob''"
  by code_simp+

text \<open>
  Claim C9, as stated, fails: the three predicates probe different paths and nothing ties
  them together. With the config file missing, \<open>rootfs/etc\<close> can be visible
  (\<open>IsMounted\<close> without \<open>IsCreated\<close>), and the cgroup directory can exist while nothing
  is mounted on \<open>rootfs\<close> (\<open>IsRunning\<close> without \<open>IsMounted\<close>).
\<close>

theorem lifecycle_order_counterexample:
  "IsMounted container_c1 config_missing_fs \<and> \<not> IsCreated container_c1 config_missing_fs \<and>
   IsRunning container_c1 unmounted_running_fs \<and> \<not> IsMounted container_c1 unmounted_running_fs"
  by (simp add: IsMounted_def IsCreated_def IsRunning_def c1_paths c1_joins DirExists_def
      FileExists_def config_missing_fs_def unmounted_running_fs_def)

text \<open>
  Claim C9, amended. For every container and every filesystem state, \<open>IsCreated\<close> implies
  that all five component paths (rootfs, meta, private-data, config, fstab) exist.
  \<open>IsMounted\<close> holds exactly when \<open>rootfs/etc\<close> is a directory and \<open>IsRunning\<close>
  exactly when \<open>/cgroup/lxc/name\<close> is a directory; neither implies \<open>IsCreated\<close> or
  \<open>IsMounted\<close>.
\<close>

theorem lifecycle_predicates:
  "(IsCreated this fsys \<longrightarrow>
      FileExists fsys (rootfs this) \<and> FileExists fsys (meta_dir this) \<and>
      FileExists fsys (private_dir this) \<and> FileExists fsys (config_pathname this) \<and>
      FileExists fsys (fstab_pathname this)) \<and>
   (IsMounted this fsys \<longleftrightarrow> DirExists fsys (Join [rootfs this, ''/etc''])) \<and>
   (IsRunning this fsys \<longleftrightarrow> DirExists fsys (Join [''/cgroup/lxc'', Container.name this]))"
  by (auto simp: IsCreated_def IsMounted_def IsRunning_def DirExists_def FileExists_def
      split: option.splits)

theorem lifecycle_predicates_witness:
  "IsCreated container_c1 started_fs \<and>
   FileExists started_fs (rootfs container_c1) \<and> FileExists started_fs (meta_dir container_c1) \<and>
   FileExists started_fs (private_dir container_c1) \<and>
   FileExists started_fs (config_pathname container_c1) \<and>
   FileExists started_fs (fstab_pathname container_c1)"
proof -
  have c: "IsCreated container_c1 started_fs"
    by (simp add: IsCreated_def c1_paths DirExists_def FileExists_def started_fs_def)
  with lifecycle_predicates [of container_c1 started_fs] show ?thesis
    by blast
qed

text \<open>
  The parts of \<open>ExecuteImpl\<close> before the user is looked at: the home directory, and the
  error when it is missing on the host. Past that check, a user other than \<open>root\<close> and
  \<open>web\<close> always ends in the panic.
\<close>

lemma GetHomeDirectory_cases:
  "GetHomeDirectory this ''root'' = ''/root''"
  "user \<noteq> ''root'' \<Longrightarrow> GetHomeDirectory this user = ''/home/'' @ user"
  by (simp_all add: GetHomeDirectory_def)

lemma ExecuteImpl_home_missing:
  assumes "\<not> DirExists (fs w) (Join [rootfs this, GetHomeDirectory this user])"
  shows "ExecuteImpl this w user args blocked =
           (None, Returns (Some (HomeMissing user (Join [rootfs this, GetHomeDirectory this user]))))"
  using assms by (simp add: ExecuteImpl_def Let_def)

lemma ExecuteImpl_other_user:
  assumes "DirExists (fs w) (Join [rootfs this, GetHomeDirectory this user])"
    and "user \<noteq> ''root''" and "user \<noteq> ''web''"
  shows "ExecuteImpl this w user args blocked = (None, Panics)"
  using assms by (simp add: ExecuteImpl_def Let_def)

text \<open>
  Claim C8 says that \<open>ExecuteImpl\<close> returns a no-such-user error for every user that is
  neither \<open>root\<close> nor \<open>web\<close>. The source builds that error and does not return it: for
  the user \<open>bob\<close>, whose home directory \<open>/home/bob\<close> exists under the rootfs, the call
  goes on with a nil \<open>fifo_command\<close> and panics, blocked or not.
\<close>

theorem ExecuteImpl_unsupported_user_panics:
  "DirExists started_fs (Join [rootfs container_c1, GetHomeDirectory container_c1 ''bob'']) \<and>
   ExecuteImpl container_c1 (calm_world\<lparr>fs := started_fs\<rparr>) ''bob'' [''ls''] False =
     (None, Panics) \<and>
   ExecuteImpl container_c1 (calm_world\<lparr>fs := started_fs\<rparr>) ''bob'' [''ls''] True =
     (None, Panics)"
  by (simp add: ExecuteImpl_def GetHomeDirectory_def c1_paths c1_joins DirExists_def
      started_fs_def)

end
